theory Spec2Isabelle
  imports Main "HOL-Library.AList"
begin

section \<open>CacheService (libs/data-access/src/lib/services/cache.service.ts)\<close>

text \<open>
  The service keeps two JavaScript \<open>Map\<close>s, \<open>cache\<close> and \<open>observables\<close>, a subject
  \<open>invalidated$\<close> and a statistics signal. A \<open>Map\<close> keeps its keys in insertion order and
  holds each key once, so both maps are association lists maintained with
  \<open>AList.update\<close> (\<open>Map.set\<close>) and \<open>AList.delete\<close> (\<open>Map.delete\<close>) and read with
  \<open>map_of\<close> (\<open>Map.get\<close>). \<open>Date.now()\<close> is the parameter \<open>now\<close> of every operation
  that reads the clock. A cached value of type \<open>T\<close> may be \<open>null\<close>: the data of an entry
  is an option, \<open>None\<close> standing for \<open>null\<close>, which is also what \<open>get\<close> returns for
  a key that is absent.
\<close>

type_synonym key = string

record 'v CacheEntry =
  data :: "'v option"
  expiry :: int
  createdAt :: int

record CacheStats =
  hits :: nat
  misses :: nat
  size_c :: nat

record ('v, 'o) CacheService =
  cache :: "(key \<times> 'v CacheEntry) list"
  observables :: "(key \<times> 'o) list"
  invalidated :: "key list"
  stats :: CacheStats

definition new_CacheService :: "('v, 'o) CacheService" where
  "new_CacheService =
     \<lparr>cache = [], observables = [], invalidated = [],
      stats = \<lparr>hits = 0, misses = 0, size_c = 0\<rparr>\<rparr>"

definition isExpired :: "int \<Rightarrow> 'v CacheEntry \<Rightarrow> bool" where
  "isExpired now entry = (now > expiry entry)"

definition recordHit :: "('v, 'o) CacheService \<Rightarrow> ('v, 'o) CacheService" where
  "recordHit s = s\<lparr>stats := (stats s)\<lparr>hits := hits (stats s) + 1\<rparr>\<rparr>"

definition recordMiss :: "('v, 'o) CacheService \<Rightarrow> ('v, 'o) CacheService" where
  "recordMiss s = s\<lparr>stats := (stats s)\<lparr>misses := misses (stats s) + 1\<rparr>\<rparr>"

definition updateSize :: "('v, 'o) CacheService \<Rightarrow> ('v, 'o) CacheService" where
  "updateSize s = s\<lparr>stats := (stats s)\<lparr>size_c := length (cache s)\<rparr>\<rparr>"

text \<open>\<open>delete(key)\<close>: the returned flag is \<open>Map.delete\<close>'s, true when the key was there.\<close>

definition cache_delete ::
  "key \<Rightarrow> ('v, 'o) CacheService \<Rightarrow> bool \<times> ('v, 'o) CacheService" where
  "cache_delete k s =
     (let deleted = (map_of (cache s) k \<noteq> None);
          s1 = s\<lparr>cache := AList.delete k (cache s),
                 observables := AList.delete k (observables s)\<rparr>
      in if deleted
         then (True, updateSize (s1\<lparr>invalidated := invalidated s1 @ [k]\<rparr>))
         else (False, s1))"

definition cache_get ::
  "key \<Rightarrow> int \<Rightarrow> ('v, 'o) CacheService \<Rightarrow> 'v option \<times> ('v, 'o) CacheService" where
  "cache_get k now s =
     (case map_of (cache s) k of
        None \<Rightarrow> (None, recordMiss s)
      | Some entry \<Rightarrow>
          if isExpired now entry
          then (None, recordMiss (snd (cache_delete k s)))
          else (data entry, recordHit s))"

definition cache_set ::
  "key \<Rightarrow> 'v option \<Rightarrow> int \<Rightarrow> int \<Rightarrow> ('v, 'o) CacheService \<Rightarrow> ('v, 'o) CacheService" where
  "cache_set k d ttl now s =
     updateSize
       (s\<lparr>cache := AList.update k \<lparr>data = d, expiry = now + ttl, createdAt = now\<rparr> (cache s)\<rparr>)"

definition cache_has :: "key \<Rightarrow> int \<Rightarrow> ('v, 'o) CacheService \<Rightarrow> bool \<times> ('v, 'o) CacheService" where
  "cache_has k now s =
     (case map_of (cache s) k of
        None \<Rightarrow> (False, s)
      | Some entry \<Rightarrow>
          if isExpired now entry then (False, snd (cache_delete k s)) else (True, s))"

text \<open>
  A run of \<open>get(key)\<close> calls at the clock readings \<open>ts\<close>, one after the other: the values
  returned, in order, and the service afterwards.
\<close>

fun cache_gets ::
  "key \<Rightarrow> int list \<Rightarrow> ('v, 'o) CacheService \<Rightarrow> 'v option list \<times> ('v, 'o) CacheService" where
  "cache_gets k [] s = ([], s)"
| "cache_gets k (t # ts) s =
     (let (r, s1) = cache_get k t s; (rs, s2) = cache_gets k ts s1 in (r # rs, s2))"

text \<open>
  \<open>wrap(key, factory, ttl)\<close>. The argument \<open>obs\<close> is the stream
  \<open>factory().pipe(tap(...), shareReplay(1))\<close> that this call builds when it reaches the
  last branch, so the factory is invoked by a call exactly when the call returns
  \<open>Created\<close>. \<open>Of v\<close> is \<open>of(cached)\<close> and \<open>Pending p\<close> is the stream found in
  \<open>observables\<close>. The test \<open>cached !== null\<close> is the case distinction on the option.
\<close>

datatype ('v, 'o) wrap_result = Of 'v | Pending 'o | Created 'o

definition cache_wrap ::
  "key \<Rightarrow> 'o \<Rightarrow> int \<Rightarrow> int \<Rightarrow> ('v, 'o) CacheService
     \<Rightarrow> ('v, 'o) wrap_result \<times> ('v, 'o) CacheService" where
  "cache_wrap k obs ttl now s =
     (let (cached, s1) = cache_get k now s in
      case cached of
        Some v \<Rightarrow> (Of v, s1)
      | None \<Rightarrow>
          (case map_of (observables s1) k of
             Some pending \<Rightarrow> (Pending pending, s1)
           | None \<Rightarrow> (Created obs, s1\<lparr>observables := AList.update k obs (observables s1)\<rparr>)))"

text \<open>
  What the \<open>tap\<close> inside \<open>wrap\<close> does when the factory's stream notifies. \<open>tap\<close> is given
  one function, which RxJS runs on every \<open>next\<close> notification only: it stores the value
  and drops the entry of \<open>observables\<close>. An \<open>error\<close> or a \<open>complete\<close> notification runs
  no code of the service.
\<close>

datatype ('v, 'e) notification = NextN "'v option" | ErrorN 'e | CompleteN

fun wrap_tap ::
  "key \<Rightarrow> int \<Rightarrow> int \<Rightarrow> ('v, 'e) notification \<Rightarrow> ('v, 'o) CacheService \<Rightarrow> ('v, 'o) CacheService" where
  "wrap_tap k ttl now (NextN d) s =
     (let s1 = cache_set k d ttl now s
      in s1\<lparr>observables := AList.delete k (observables s1)\<rparr>)"
| "wrap_tap k ttl now (ErrorN e) s = s"
| "wrap_tap k ttl now CompleteN s = s"

text \<open>
  \<open>wrap(key, ...)\<close> called once per element of \<open>calls\<close>, with nothing else happening in
  between: each element gives the clock reading of the call and the stream its factory
  would build.
\<close>

fun cache_wraps ::
  "key \<Rightarrow> int \<Rightarrow> (int \<times> 'o) list \<Rightarrow> ('v, 'o) CacheService
     \<Rightarrow> ('v, 'o) wrap_result list \<times> ('v, 'o) CacheService" where
  "cache_wraps k ttl [] s = ([], s)"
| "cache_wraps k ttl ((now, obs) # calls) s =
     (let (r, s1) = cache_wrap k obs ttl now s; (rs, s2) = cache_wraps k ttl calls s1
      in (r # rs, s2))"

fun is_Created :: "('v, 'o) wrap_result \<Rightarrow> bool" where
  "is_Created (Created _) = True"
| "is_Created _ = False"

definition factory_calls :: "('v, 'o) wrap_result list \<Rightarrow> nat" where
  "factory_calls rs = length (filter is_Created rs)"

text \<open>
  What happens to a key while the stream of a first \<open>wrap\<close> has not completed: further
  \<open>wrap(key, ...)\<close> calls, and values that the stream emits, which run the \<open>tap\<close>. An
  emitted value here is not \<open>null\<close>. \<open>wrap_trace\<close> runs the events in order and returns the
  results of the calls.
\<close>

datatype ('v, 'o) wrap_event = WrapCall int 'o | Emission int 'v

fun wrap_trace ::
  "key \<Rightarrow> int \<Rightarrow> ('v, 'o) wrap_event list \<Rightarrow> ('v, 'o) CacheService
     \<Rightarrow> ('v, 'o) wrap_result list \<times> ('v, 'o) CacheService" where
  "wrap_trace k ttl [] s = ([], s)"
| "wrap_trace k ttl (WrapCall now obs # es) s =
     (let (r, s1) = cache_wrap k obs ttl now s; (rs, s2) = wrap_trace k ttl es s1
      in (r # rs, s2))"
| "wrap_trace k ttl (Emission now v # es) s =
     wrap_trace k ttl es (wrap_tap k ttl now (NextN (Some v) :: ('v, unit) notification) s)"

text \<open>
  No call of the trace is made after the entry written by the latest emission has
  expired; \<open>exp\<close> is the expiry of that entry, \<open>None\<close> before the first emission.
\<close>

fun before_expiry :: "int \<Rightarrow> int option \<Rightarrow> ('v, 'o) wrap_event list \<Rightarrow> bool" where
  "before_expiry ttl exp [] = True"
| "before_expiry ttl exp (WrapCall now obs # es) =
     ((case exp of None \<Rightarrow> True | Some x \<Rightarrow> now \<le> x) \<and> before_expiry ttl exp es)"
| "before_expiry ttl exp (Emission now v # es) = before_expiry ttl (Some (now + ttl)) es"

text \<open>
  The answers to expect: the pending stream \<open>p\<close> before the first emission, the value
  last emitted afterwards.
\<close>

fun answers :: "'o \<Rightarrow> 'v option \<Rightarrow> ('v, 'o) wrap_event list \<Rightarrow> ('v, 'o) wrap_result list" where
  "answers p emitted [] = []"
| "answers p emitted (WrapCall now obs # es) =
     (case emitted of None \<Rightarrow> Pending p | Some v \<Rightarrow> Of v) # answers p emitted es"
| "answers p emitted (Emission now v # es) = answers p (Some v) es"

text \<open>
  \<open>getOrSet(key, factory, ttl)\<close>. \<open>produced\<close> is what \<open>await factory()\<close> gives when the
  factory is invoked, \<open>Inl\<close> for a throw or a rejected promise; \<open>now\<close> is the clock at the
  \<open>get\<close> and \<open>now'\<close> the clock when the function resumes after the \<open>await\<close>. The first
  component of the result tells whether the factory was invoked.
\<close>

definition cache_getOrSet ::
  "key \<Rightarrow> 'e + 'v option \<Rightarrow> int \<Rightarrow> int \<Rightarrow> int \<Rightarrow> ('v, 'o) CacheService
     \<Rightarrow> bool \<times> ('e + 'v option) \<times> ('v, 'o) CacheService" where
  "cache_getOrSet k produced ttl now now' s =
     (let (cached, s1) = cache_get k now s in
      case cached of
        Some v \<Rightarrow> (False, Inr (Some v), s1)
      | None \<Rightarrow>
          (case produced of
             Inl e \<Rightarrow> (True, Inl e, s1)
           | Inr d \<Rightarrow> (True, Inr d, cache_set k d ttl now' s1)))"

section \<open>ApiService (further down in the same source file)\<close>

subsection \<open>withRetry\<close>

text \<open>
  \<open>RetryConfig\<close> and a \<open>Partial<RetryConfig>\<close>, in which an absent property is \<open>None\<close>;
  \<open>{ ...DEFAULT_RETRY_CONFIG, ...config }\<close> is \<open>merge_RetryConfig\<close>. Delays are
  milliseconds. JavaScript numbers are taken as integers.
\<close>

record RetryConfig =
  maxRetries :: int
  retryDelay :: int
  retryStatuses :: "int list"
  exponentialBackoff :: bool

record PartialRetryConfig =
  maxRetries_opt :: "int option"
  retryDelay_opt :: "int option"
  retryStatuses_opt :: "int list option"
  exponentialBackoff_opt :: "bool option"

definition DEFAULT_RETRY_CONFIG :: RetryConfig where
  "DEFAULT_RETRY_CONFIG =
     \<lparr>maxRetries = 3, retryDelay = 1000,
      retryStatuses = [408, 429, 500, 502, 503, 504], exponentialBackoff = True\<rparr>"

definition merge_RetryConfig :: "RetryConfig \<Rightarrow> PartialRetryConfig \<Rightarrow> RetryConfig" where
  "merge_RetryConfig d c =
     \<lparr>maxRetries = (case maxRetries_opt c of None \<Rightarrow> maxRetries d | Some x \<Rightarrow> x),
      retryDelay = (case retryDelay_opt c of None \<Rightarrow> retryDelay d | Some x \<Rightarrow> x),
      retryStatuses = (case retryStatuses_opt c of None \<Rightarrow> retryStatuses d | Some x \<Rightarrow> x),
      exponentialBackoff =
        (case exponentialBackoff_opt c of None \<Rightarrow> exponentialBackoff d | Some x \<Rightarrow> x)\<rparr>"

text \<open>
  An error is an \<open>HttpErrorResponse\<close> with its status, or any other value (for which
  \<open>error instanceof HttpErrorResponse\<close> is false).
\<close>

datatype 'e request_error = HttpErrorResponse int | OtherError 'e

text \<open>
  The accumulator function of \<open>scan\<close>, seeded with 0: \<open>Inl\<close> is \<open>throw error\<close>, \<open>Inr\<close> the
  new retry count, which is also the value handed to \<open>switchMap\<close>.
\<close>

definition retry_scan ::
  "RetryConfig \<Rightarrow> nat \<Rightarrow> 'e request_error \<Rightarrow> 'e request_error + nat" where
  "retry_scan retryConfig retryCount err =
     (if int retryCount \<ge> maxRetries retryConfig then Inl err
      else (case err of
              HttpErrorResponse status \<Rightarrow>
                if status \<notin> set (retryStatuses retryConfig) then Inl err
                else Inr (retryCount + 1)
            | OtherError _ \<Rightarrow> Inr (retryCount + 1)))"

text \<open>The function given to \<open>switchMap\<close>: the delay of \<open>timer(delayMs)\<close>.\<close>

definition retry_delayMs :: "RetryConfig \<Rightarrow> nat \<Rightarrow> int" where
  "retry_delayMs retryConfig retryCount =
     (let baseDelay = retryDelay retryConfig
      in if exponentialBackoff retryConfig
         then min (baseDelay * 2 ^ retryCount) 30000
         else baseDelay)"

text \<open>
  \<open>retryWhen\<close> subscribes to the stream of \<open>requestFn()\<close> again each time the timer
  fires. The list \<open>outcomes\<close> tells how each subscription ends, the first subscription
  first. The result is the list of the delays waited, in order, and how the stream
  returned by \<open>withRetry\<close> ends; \<open>Unsettled\<close> when every listed subscription has failed
  and been retried.
\<close>

datatype ('v, 'e) outcome = Fails "'e request_error" | Succeeds 'v

datatype ('v, 'e) stream_end = Yields 'v | Raises "'e request_error" | Unsettled

fun retry_run ::
  "RetryConfig \<Rightarrow> nat \<Rightarrow> ('v, 'e) outcome list \<Rightarrow> int list \<times> ('v, 'e) stream_end" where
  "retry_run retryConfig retryCount [] = ([], Unsettled)"
| "retry_run retryConfig retryCount (Succeeds v # rest) = ([], Yields v)"
| "retry_run retryConfig retryCount (Fails err # rest) =
     (case retry_scan retryConfig retryCount err of
        Inl e \<Rightarrow> ([], Raises e)
      | Inr n \<Rightarrow>
          (let (delays, r) = retry_run retryConfig n rest
           in (retry_delayMs retryConfig n # delays, r)))"

definition withRetry ::
  "('v, 'e) outcome list \<Rightarrow> PartialRetryConfig \<Rightarrow> int list \<times> ('v, 'e) stream_end" where
  "withRetry outcomes config =
     retry_run (merge_RetryConfig DEFAULT_RETRY_CONFIG config) 0 outcomes"

text \<open>The errors that the accumulator lets through to a retry while retries remain.\<close>

definition retryable :: "RetryConfig \<Rightarrow> 'e request_error \<Rightarrow> bool" where
  "retryable rc e = (case e of HttpErrorResponse st \<Rightarrow> st \<in> set (retryStatuses rc) | OtherError _ \<Rightarrow> True)"

definition no_config :: PartialRetryConfig where
  "no_config =
     \<lparr>maxRetries_opt = None, retryDelay_opt = None, retryStatuses_opt = None,
      exponentialBackoff_opt = None\<rparr>"

subsection \<open>get with the response cache\<close>

text \<open>
  The service's own \<open>cache\<close> map holds \<open>{ data, expiry }\<close> objects. Of a
  \<open>RequestConfig\<close> only the \<open>cache\<close> directive matters here; an absent directive or
  property is \<open>None\<close>.
\<close>

record 'v ApiCacheEntry =
  data_a :: 'v
  expiry_a :: int

record CacheDirective =
  enabled :: bool
  ttl_opt :: "int option"
  key_opt :: "string option"

record 'v ApiService =
  api_cache :: "(string \<times> 'v ApiCacheEntry) list"

definition buildUrl :: "string \<Rightarrow> string \<Rightarrow> string" where
  "buildUrl baseUrl endpoint =
     (if take 7 endpoint = ''http://'' \<or> take 8 endpoint = ''https://'' then endpoint
      else (let base = (if baseUrl \<noteq> [] \<and> last baseUrl = CHR ''/'' then butlast baseUrl
                        else baseUrl);
                path = (if take 1 endpoint = ''/'' then endpoint else ''/'' @ endpoint)
            in base @ path))"

definition getFromCache ::
  "string \<Rightarrow> int \<Rightarrow> 'v ApiService \<Rightarrow> 'v option \<times> 'v ApiService" where
  "getFromCache k now s =
     (case map_of (api_cache s) k of
        Some cached \<Rightarrow>
          if expiry_a cached > now then (Some (data_a cached), s)
          else (None, s\<lparr>api_cache := AList.delete k (api_cache s)\<rparr>)
      | None \<Rightarrow> (None, s\<lparr>api_cache := AList.delete k (api_cache s)\<rparr>))"

definition setCache :: "string \<Rightarrow> 'v \<Rightarrow> int \<Rightarrow> int \<Rightarrow> 'v ApiService \<Rightarrow> 'v ApiService" where
  "setCache k d ttl now s =
     s\<lparr>api_cache := AList.update k \<lparr>data_a = d, expiry_a = now + ttl\<rparr> (api_cache s)\<rparr>"

text \<open>\<open>config.cache.key ?? url\<close> and \<open>config.cache.ttl ?? 60000\<close>.\<close>

definition cacheKey_of :: "string \<Rightarrow> string \<Rightarrow> CacheDirective \<Rightarrow> string" where
  "cacheKey_of baseUrl endpoint c =
     (case key_opt c of None \<Rightarrow> buildUrl baseUrl endpoint | Some k \<Rightarrow> k)"

definition ttl_of :: "CacheDirective \<Rightarrow> int" where
  "ttl_of c = (case ttl_opt c of None \<Rightarrow> 60000 | Some t \<Rightarrow> t)"

text \<open>
  What \<open>get\<close> returns: the one-value stream built by \<open>getFromCache\<close>, or a stream built
  on a new \<open>this.http.get(url, options)\<close>. The service keeps no reference to a stream
  it has returned, so every \<open>HttpGet\<close> is a stream of its own; subscribing to it sends
  one HTTP request (\<open>shareReplay(1)\<close> shares that request among the subscribers of
  this one stream). The second argument of \<open>HttpGet\<close> is the key and time to live under
  which the \<open>map\<close> operator will store the response, when caching is enabled.
\<close>

datatype 'v get_result = CachedValue 'v | HttpGet string "(string \<times> int) option"

definition api_get ::
  "string \<Rightarrow> string \<Rightarrow> CacheDirective option \<Rightarrow> int \<Rightarrow> 'v ApiService
     \<Rightarrow> 'v get_result \<times> 'v ApiService" where
  "api_get baseUrl endpoint cache_cfg now s =
     (let url = buildUrl baseUrl endpoint in
      case cache_cfg of
        None \<Rightarrow> (HttpGet url None, s)
      | Some c \<Rightarrow>
          if \<not> enabled c then (HttpGet url None, s)
          else
            (let cacheKey = (case key_opt c of None \<Rightarrow> url | Some k \<Rightarrow> k);
                 ttl = (case ttl_opt c of None \<Rightarrow> 60000 | Some t \<Rightarrow> t);
                 (cached, s1) = getFromCache cacheKey now s
             in case cached of
                  Some v \<Rightarrow> (CachedValue v, s1)
                | None \<Rightarrow> (HttpGet url (Some (cacheKey, ttl)), s1)))"

text \<open>The \<open>map\<close> operator of a caching \<open>get\<close>, run when the response \<open>d\<close> arrives.\<close>

definition api_get_response ::
  "(string \<times> int) option \<Rightarrow> 'v \<Rightarrow> int \<Rightarrow> 'v ApiService \<Rightarrow> 'v ApiService" where
  "api_get_response store d now s =
     (case store of None \<Rightarrow> s | Some (cacheKey, ttl) \<Rightarrow> setCache cacheKey d ttl now s)"

text \<open>
  \<open>get\<close> called once per clock reading of \<open>ts\<close> with the same arguments, no response
  arriving in between.
\<close>

fun api_gets ::
  "string \<Rightarrow> string \<Rightarrow> CacheDirective option \<Rightarrow> int list \<Rightarrow> 'v ApiService
     \<Rightarrow> 'v get_result list \<times> 'v ApiService" where
  "api_gets baseUrl endpoint cache_cfg [] s = ([], s)"
| "api_gets baseUrl endpoint cache_cfg (now # ts) s =
     (let (r, s1) = api_get baseUrl endpoint cache_cfg now s;
          (rs, s2) = api_gets baseUrl endpoint cache_cfg ts s1
      in (r # rs, s2))"

fun is_HttpGet :: "'v get_result \<Rightarrow> bool" where
  "is_HttpGet (HttpGet _ _) = True"
| "is_HttpGet _ = False"

definition http_requests :: "'v get_result list \<Rightarrow> nat" where
  "http_requests rs = length (filter is_HttpGet rs)"

text \<open>
  The streams that \<open>get\<close> has returned and the requests handed to \<open>HttpClient\<close>. The
  service keeps no reference to a returned stream, so they live beside it: each
  \<open>HttpGet\<close> result becomes a stream with a serial number. \<open>this.http.get\<close> is cold, a
  request is sent when the stream is subscribed. A caching \<open>get\<close> puts \<open>shareReplay(1)\<close>
  on the stream: the first subscriber sends the request, later subscribers join it or
  have the response replayed, and the \<open>map\<close> that follows \<open>shareReplay\<close> stores the
  response once for every subscriber it reaches. Without caching every subscriber sends
  a request of its own. Failures and unsubscription are left out.
\<close>

record 'v GetStream =
  url_g :: string
  store_g :: "(string \<times> int) option"
  connected_g :: bool
  value_g :: "'v option"
  subscribers_g :: nat

record 'v ApiWorld =
  service_w :: "'v ApiService"
  streams_w :: "(nat \<times> 'v GetStream) list"
  next_stream :: nat
  http_sent :: "string list"

definition world_get ::
  "string \<Rightarrow> string \<Rightarrow> CacheDirective option \<Rightarrow> int \<Rightarrow> 'v ApiWorld
     \<Rightarrow> ('v + nat) \<times> 'v ApiWorld" where
  "world_get baseUrl endpoint cache_cfg now w =
     (case api_get baseUrl endpoint cache_cfg now (service_w w) of
        (CachedValue v, s1) \<Rightarrow> (Inl v, w\<lparr>service_w := s1\<rparr>)
      | (HttpGet u store, s1) \<Rightarrow>
          (Inr (next_stream w),
           w\<lparr>service_w := s1,
             streams_w :=
               AList.update (next_stream w)
                 \<lparr>url_g = u, store_g = store, connected_g = False, value_g = None,
                  subscribers_g = 0\<rparr>
                 (streams_w w),
             next_stream := next_stream w + 1\<rparr>))"

definition subscribe :: "nat \<Rightarrow> int \<Rightarrow> 'v ApiWorld \<Rightarrow> 'v ApiWorld" where
  "subscribe i now w =
     (case map_of (streams_w w) i of
        None \<Rightarrow> w
      | Some st \<Rightarrow>
          (case store_g st of
             None \<Rightarrow>
               w\<lparr>http_sent := http_sent w @ [url_g st],
                 streams_w :=
                   AList.update i (st\<lparr>subscribers_g := subscribers_g st + 1\<rparr>) (streams_w w)\<rparr>
           | Some store \<Rightarrow>
               (let w1 = (if connected_g st then w
                          else w\<lparr>http_sent := http_sent w @ [url_g st]\<rparr>);
                    st1 = st\<lparr>connected_g := True, subscribers_g := subscribers_g st + 1\<rparr>;
                    w2 = w1\<lparr>streams_w := AList.update i st1 (streams_w w1)\<rparr>
                in case value_g st of
                     None \<Rightarrow> w2
                   | Some d \<Rightarrow>
                       w2\<lparr>service_w := api_get_response (Some store) d now (service_w w2)\<rparr>)))"

text \<open>The response \<open>d\<close> to the request of a caching stream arrives.\<close>

definition respond :: "nat \<Rightarrow> 'v \<Rightarrow> int \<Rightarrow> 'v ApiWorld \<Rightarrow> 'v ApiWorld" where
  "respond i d now w =
     (case map_of (streams_w w) i of
        None \<Rightarrow> w
      | Some st \<Rightarrow>
          if connected_g st \<and> value_g st = None \<and> store_g st \<noteq> None
          then w\<lparr>streams_w := AList.update i (st\<lparr>value_g := Some d\<rparr>) (streams_w w),
                 service_w :=
                   ((api_get_response (store_g st) d now) ^^ subscribers_g st) (service_w w)\<rparr>
          else w)"

text \<open>\<open>config?.cache?.enabled\<close> as a condition.\<close>

definition cache_enabled :: "CacheDirective option \<Rightarrow> bool" where
  "cache_enabled rc = (case rc of None \<Rightarrow> False | Some c \<Rightarrow> enabled c)"

subsection \<open>createPaginatedStream\<close>

text \<open>
  The closure's constants and subjects are the fields of a record: \<open>endpoint_p\<close>,
  \<open>pageSize\<close>, \<open>initialPage\<close> and \<open>requestConfig_p\<close> (of the request configuration, its
  \<open>cache\<close> directive) are fixed; \<open>page\<close>, \<open>data_p\<close>, \<open>loading\<close>, \<open>hasMore\<close> and \<open>error_p\<close>
  are the current values of the \<open>BehaviorSubject\<close>s. \<open>inflight\<close> is the inner
  subscription of \<open>switchMap\<close>: the page and page size of the request whose response is
  awaited, and where its response will be cached (a new page cancels the previous
  request). \<open>stopped\<close> is set by \<open>destroy\<close>, after which the completed subjects ignore
  \<open>next\<close>. Every page request goes through \<open>getPaginated\<close> and so through \<open>get\<close> with
  the request configuration: the stream is run beside the \<open>ApiService\<close> it belongs to,
  whose cache holds page responses.
\<close>

record 'a PaginatedResponse =
  data_r :: "'a list"
  hasNextPage :: bool

record ('a, 'e) PaginatedStream =
  endpoint_p :: string
  requestConfig_p :: "CacheDirective option"
  pageSize :: int
  initialPage :: int
  page :: int
  data_p :: "'a list"
  loading :: bool
  hasMore :: bool
  error_p :: "'e option"
  inflight :: "(int \<times> int \<times> (string \<times> int) option) option"
  stopped :: bool

text \<open>The subscriber of the pipeline, run with a response.\<close>

definition on_response ::
  "'a PaginatedResponse \<Rightarrow> ('a, 'e) PaginatedStream \<Rightarrow> ('a, 'e) PaginatedStream" where
  "on_response response s =
     (if stopped s then s\<lparr>inflight := None\<rparr>
      else (let currentPage = page s
            in s\<lparr>loading := False, error_p := None,
                  data_p := (if currentPage = initialPage s then data_r response
                             else data_p s @ data_r response),
                  hasMore := hasNextPage response,
                  inflight := None\<rparr>))"

text \<open>
  \<open>page$.next(p)\<close> with the pipeline subscribed to it: \<open>tap\<close>, then \<open>switchMap\<close>, which
  calls \<open>getPaginated\<close>. \<open>get\<close> looks into the cache when it is called; a cached
  response is emitted while the stream is subscribed, so the subscriber runs at once.
\<close>

definition page_next ::
  "string \<Rightarrow> int \<Rightarrow> int
     \<Rightarrow> ('a, 'e) PaginatedStream \<times> 'a PaginatedResponse ApiService
     \<Rightarrow> ('a, 'e) PaginatedStream \<times> 'a PaginatedResponse ApiService" where
  "page_next baseUrl now p w =
     (let (s, api) = w in
      if stopped s then (s, api)
      else (let s1 = s\<lparr>page := p, loading := True\<rparr>
            in case api_get baseUrl (endpoint_p s) (requestConfig_p s) now api of
                 (CachedValue r, api1) \<Rightarrow> (on_response r (s1\<lparr>inflight := None\<rparr>), api1)
               | (HttpGet u store, api1) \<Rightarrow>
                   (s1\<lparr>inflight := Some (p, pageSize s, store)\<rparr>, api1)))"

definition createPaginatedStream ::
  "string \<Rightarrow> string \<Rightarrow> int option \<Rightarrow> int option \<Rightarrow> CacheDirective option \<Rightarrow> int
     \<Rightarrow> 'a PaginatedResponse ApiService
     \<Rightarrow> ('a, 'e) PaginatedStream \<times> 'a PaginatedResponse ApiService" where
  "createPaginatedStream baseUrl endpoint pageSize_cfg initialPage_cfg requestConfig now api =
     (let ps = (case pageSize_cfg of None \<Rightarrow> 20 | Some n \<Rightarrow> n);
          ip = (case initialPage_cfg of None \<Rightarrow> 1 | Some n \<Rightarrow> n)
      in page_next baseUrl now ip
           (\<lparr>endpoint_p = endpoint, requestConfig_p = requestConfig, pageSize = ps,
             initialPage = ip, page = ip, data_p = [], loading = False, hasMore = True,
             error_p = None, inflight = None, stopped = False\<rparr>, api))"

text \<open>\<open>catchError\<close> of the inner request: the error is published and the inner stream ends.\<close>

definition on_request_error :: "'e \<Rightarrow> ('a, 'e) PaginatedStream \<Rightarrow> ('a, 'e) PaginatedStream" where
  "on_request_error err s =
     (if stopped s then s\<lparr>inflight := None\<rparr> else s\<lparr>error_p := Some err, inflight := None\<rparr>)"

definition loadMore ::
  "string \<Rightarrow> int
     \<Rightarrow> ('a, 'e) PaginatedStream \<times> 'a PaginatedResponse ApiService
     \<Rightarrow> ('a, 'e) PaginatedStream \<times> 'a PaginatedResponse ApiService" where
  "loadMore baseUrl now w =
     (let (s, api) = w in
      if \<not> loading s \<and> hasMore s then page_next baseUrl now (page s + 1) w else w)"

definition reset ::
  "string \<Rightarrow> int
     \<Rightarrow> ('a, 'e) PaginatedStream \<times> 'a PaginatedResponse ApiService
     \<Rightarrow> ('a, 'e) PaginatedStream \<times> 'a PaginatedResponse ApiService" where
  "reset baseUrl now w =
     (let (s, api) = w in
      if stopped s then w
      else page_next baseUrl now (initialPage s) (s\<lparr>data_p := [], hasMore := True\<rparr>, api))"

text \<open>
  \<open>destroy()\<close> completes the subjects. \<open>takeUntil(stop$)\<close> stands before \<open>switchMap\<close>, so
  a request that is awaited stays awaited; its response finds the subjects completed.
\<close>

definition destroy :: "('a, 'e) PaginatedStream \<Rightarrow> ('a, 'e) PaginatedStream" where
  "destroy s = s\<lparr>stopped := True\<rparr>"

text \<open>
  The server answers the awaited request: \<open>server page pageSize\<close> is the response to
  \<open>getPaginated(endpoint, { page, pageSize })\<close>. The response passes the \<open>map\<close> of
  \<open>get\<close>, which caches it when caching is enabled, and reaches the subscriber. Nothing
  happens when no request is awaited.
\<close>

definition deliver ::
  "(int \<Rightarrow> int \<Rightarrow> 'a PaginatedResponse) \<Rightarrow> int
     \<Rightarrow> ('a, 'e) PaginatedStream \<times> 'a PaginatedResponse ApiService
     \<Rightarrow> ('a, 'e) PaginatedStream \<times> 'a PaginatedResponse ApiService" where
  "deliver server now w =
     (let (s, api) = w in
      case inflight s of
        None \<Rightarrow> w
      | Some (p, ps, store) \<Rightarrow>
          (on_response (server p ps) s, api_get_response store (server p ps) now api))"

section \<open>WebSocketService (libs/data-access/src/lib/data-access/data-access.ts)\<close>

text \<open>
  The service's private fields and signals are the fields of a record. The socket is
  known by the serial number of its creation, \<open>sockets_created\<close> counting the calls of
  \<open>webSocket(...)\<close>; \<open>sent\<close> lists the messages handed to \<open>socket$.next\<close>, oldest first;
  \<open>warnings\<close> counts the calls of \<open>console.warn\<close>; \<open>reconnect_timers\<close> counts the timers
  started by \<open>attemptReconnect\<close> that have not fired yet; \<open>heartbeatTimer\<close> tells whether
  the interval timer is set. An optional property of the configuration is an option.
\<close>

datatype WebSocketState = Connecting | Connected | Disconnected | Reconnecting | ErrorState

datatype ws_error = MaxReconnectionAttempts | SocketError string | RequestTimeout string

record WebSocketConfig =
  url :: string
  reconnect :: "bool option"
  reconnectInterval :: "int option"
  reconnectAttempts_cfg :: "nat option"
  heartbeatInterval :: "int option"

record 'p WebSocketMessage =
  type_m :: string
  payload :: 'p
  timestamp :: "int option"
  id_m :: "string option"

record 'p WebSocketService =
  socket :: "nat option"
  config :: "WebSocketConfig option"
  reconnectAttempts :: nat
  heartbeatTimer :: bool
  state :: WebSocketState
  error_s :: "ws_error option"
  sent :: "'p WebSocketMessage list"
  warnings :: nat
  sockets_created :: nat
  reconnect_timers :: nat

definition new_WebSocketService :: "'p WebSocketService" where
  "new_WebSocketService =
     \<lparr>socket = None, config = None, reconnectAttempts = 0, heartbeatTimer = False,
      state = Disconnected, error_s = None, sent = [], warnings = 0,
      sockets_created = 0, reconnect_timers = 0\<rparr>"

definition stopHeartbeat :: "'p WebSocketService \<Rightarrow> 'p WebSocketService" where
  "stopHeartbeat s = (if heartbeatTimer s then s\<lparr>heartbeatTimer := False\<rparr> else s)"

text \<open>\<open>!this.config?.heartbeatInterval\<close> holds for no configuration, no interval and 0.\<close>

definition startHeartbeat :: "'p WebSocketService \<Rightarrow> 'p WebSocketService" where
  "startHeartbeat s =
     (case config s of
        None \<Rightarrow> s
      | Some c \<Rightarrow>
          (case heartbeatInterval c of
             None \<Rightarrow> s
           | Some i \<Rightarrow> if i = 0 then s else (stopHeartbeat s)\<lparr>heartbeatTimer := True\<rparr>))"

definition disconnect :: "'p WebSocketService \<Rightarrow> 'p WebSocketService" where
  "disconnect s =
     (let s1 = stopHeartbeat s;
          s2 = (if socket s1 \<noteq> None then s1\<lparr>socket := None\<rparr> else s1)
      in s2\<lparr>state := Disconnected, config := None, reconnectAttempts := 0\<rparr>)"

definition createConnection :: "'p WebSocketService \<Rightarrow> 'p WebSocketService" where
  "createConnection s =
     (case config s of
        None \<Rightarrow> s
      | Some c \<Rightarrow> s\<lparr>socket := Some (sockets_created s),
                     sockets_created := sockets_created s + 1\<rparr>)"

text \<open>The defaults of \<open>connect\<close>, each overridden by a property the caller gives.\<close>

definition with_defaults :: "WebSocketConfig \<Rightarrow> WebSocketConfig" where
  "with_defaults c =
     c\<lparr>reconnect := (case reconnect c of None \<Rightarrow> Some True | Some b \<Rightarrow> Some b),
       reconnectInterval := (case reconnectInterval c of None \<Rightarrow> Some 3000 | Some i \<Rightarrow> Some i),
       reconnectAttempts_cfg :=
         (case reconnectAttempts_cfg c of None \<Rightarrow> Some 10 | Some n \<Rightarrow> Some n),
       heartbeatInterval :=
         (case heartbeatInterval c of None \<Rightarrow> Some 30000 | Some i \<Rightarrow> Some i)\<rparr>"

definition connect :: "WebSocketConfig \<Rightarrow> 'p WebSocketService \<Rightarrow> 'p WebSocketService" where
  "connect c s =
     (let s1 = (if socket s \<noteq> None then disconnect s else s);
          s2 = s1\<lparr>config := Some (with_defaults c), state := Connecting, error_s := None,
                   reconnectAttempts := 0\<rparr>
      in createConnection s2)"

definition attemptReconnect :: "'p WebSocketService \<Rightarrow> 'p WebSocketService" where
  "attemptReconnect s =
     (case config s of
        None \<Rightarrow> s
      | Some c \<Rightarrow>
          (let maxAttempts = (case reconnectAttempts_cfg c of None \<Rightarrow> 10 | Some n \<Rightarrow> n)
           in if reconnectAttempts s \<ge> maxAttempts
              then s\<lparr>error_s := Some MaxReconnectionAttempts\<rparr>
              else s\<lparr>state := Reconnecting,
                     reconnectAttempts := reconnectAttempts s + 1,
                     reconnect_timers := reconnect_timers s + 1\<rparr>))"


text \<open>
  The callbacks the service registers, each an event of the model: \<open>openObserver.next\<close>,
  \<open>closeObserver.next(event)\<close> with \<open>event.wasClean\<close>, the \<open>error\<close> handler of the
  subscription to the socket, and the subscriber of the reconnect timer.
\<close>

definition on_open :: "'p WebSocketService \<Rightarrow> 'p WebSocketService" where
  "on_open s = startHeartbeat (s\<lparr>state := Connected, error_s := None, reconnectAttempts := 0\<rparr>)"




text \<open>
  \<open>send(message)\<close>; \<open>fresh\<close> is the value of \<open>generateMessageId()\<close>, used when the message
  has no id.
\<close>

definition send ::
  "'p WebSocketMessage \<Rightarrow> string \<Rightarrow> int \<Rightarrow> 'p WebSocketService \<Rightarrow> 'p WebSocketService" where
  "send message fresh now s =
     (if socket s = None \<or> state s \<noteq> Connected then s\<lparr>warnings := warnings s + 1\<rparr>
      else (let messageWithMeta =
                  message\<lparr>timestamp := Some now,
                          id_m := Some (case id_m message of None \<Rightarrow> fresh | Some i \<Rightarrow> i)\<rparr>
            in s\<lparr>sent := sent s @ [messageWithMeta]\<rparr>))"

text \<open>
  \<open>request(type, payload, responseType, timeout)\<close> draws the correlation id and returns
  a cold stream: the call reads and changes nothing of the service, and all the work is
  done when the stream is subscribed. \<open>ident\<close> is the value of \<open>generateMessageId()\<close>.
\<close>

record 'p RequestStream =
  rs_type :: string
  rs_payload :: 'p
  rs_responseType :: string
  rs_timeout :: int
  rs_id :: string

definition request :: "string \<Rightarrow> 'p \<Rightarrow> string \<Rightarrow> int \<Rightarrow> string \<Rightarrow> 'p RequestStream" where
  "request ty pl responseType timeout ident =
     \<lparr>rs_type = ty, rs_payload = pl, rs_responseType = responseType, rs_timeout = timeout,
      rs_id = ident\<rparr>"

text \<open>
  The subscriber of such a stream is a record: the correlation id, the time at which
  the \<open>setTimeout\<close> callback is due, and what the subscriber has been told so far. Once
  it has been told a response or an error, the teardown has cleared the timer and left
  \<open>messages$\<close>, so later events change nothing. Subscribing sets the timer, subscribes
  to \<open>messages$\<close> and calls \<open>send\<close>.
\<close>

datatype 'r request_outcome = Waiting | Received 'r | Failed ws_error

record 'r RequestSubscriber =
  req_type :: string
  req_responseType :: string
  req_id :: string
  due :: int
  outcome :: "'r request_outcome"

definition request_subscribe ::
  "'p RequestStream \<Rightarrow> int \<Rightarrow> 'p WebSocketService
     \<Rightarrow> 'r RequestSubscriber \<times> 'p WebSocketService" where
  "request_subscribe rq now s =
     (\<lparr>req_type = rs_type rq, req_responseType = rs_responseType rq, req_id = rs_id rq,
       due = now + rs_timeout rq, outcome = Waiting\<rparr>,
      send \<lparr>type_m = rs_type rq, payload = rs_payload rq, timestamp = None,
            id_m = Some (rs_id rq)\<rparr> (rs_id rq) now s)"

text \<open>A message arrives on \<open>messages$\<close>: the \<open>filter\<close> and the \<open>next\<close> handler.\<close>

definition request_on_message ::
  "'r WebSocketMessage \<Rightarrow> 'r RequestSubscriber \<Rightarrow> 'r RequestSubscriber" where
  "request_on_message msg sub =
     (if outcome sub = Waiting \<and> type_m msg = req_responseType sub \<and> id_m msg = Some (req_id sub)
      then sub\<lparr>outcome := Received (payload msg)\<rparr>
      else sub)"

text \<open>The clock reaches \<open>now\<close>: the timeout callback runs if it is due and still set.\<close>

definition request_tick :: "int \<Rightarrow> 'r RequestSubscriber \<Rightarrow> 'r RequestSubscriber" where
  "request_tick now sub =
     (if outcome sub = Waiting \<and> now \<ge> due sub
      then sub\<lparr>outcome := Failed (RequestTimeout (req_type sub))\<rparr>
      else sub)"






section \<open>Properties\<close>

subsection \<open>CacheService: entries and their expiry\<close>

lemma map_of_cache_set:
  "map_of (cache (cache_set k d ttl now s)) k = Some \<lparr>data = d, expiry = now + ttl, createdAt = now\<rparr>"
  by (simp add: cache_set_def updateSize_def update_conv')

lemma stats_cache_set:
  "hits (stats (cache_set k d ttl now s)) = hits (stats s)"
  "misses (stats (cache_set k d ttl now s)) = misses (stats s)"
  "observables (cache_set k d ttl now s) = observables s"
  by (simp_all add: cache_set_def updateSize_def)

lemma cache_get_live:
  assumes "map_of (cache s) k = Some e" and "now \<le> expiry e"
  shows "cache_get k now s = (data e, recordHit s)"
  using assms by (simp add: cache_get_def isExpired_def)

lemma cache_get_expired:
  assumes "map_of (cache s) k = Some e" and "expiry e < now"
  shows "fst (cache_get k now s) = None"
    and "map_of (cache (snd (cache_get k now s))) k = None"
    and "map_of (observables (snd (cache_get k now s))) k = None"
    and "misses (stats (snd (cache_get k now s))) = misses (stats s) + 1"
    and "hits (stats (snd (cache_get k now s))) = hits (stats s)"
  using assms
  by (simp_all add: cache_get_def isExpired_def cache_delete_def recordMiss_def updateSize_def
      delete_conv')

lemma cache_get_absent:
  assumes "map_of (cache s) k = None"
  shows "cache_get k now s = (None, recordMiss s)"
  using assms by (simp add: cache_get_def)

lemma cache_has_absent:
  assumes "map_of (cache s) k = None"
  shows "cache_has k now s = (False, s)"
  using assms by (simp add: cache_has_def)

lemma cache_gets_live:
  assumes "map_of (cache s) k = Some e" and "\<forall>t \<in> set ts. t \<le> expiry e"
  shows "fst (cache_gets k ts s) = replicate (length ts) (data e)
       \<and> cache (snd (cache_gets k ts s)) = cache s
       \<and> hits (stats (snd (cache_gets k ts s))) = hits (stats s) + length ts
       \<and> misses (stats (snd (cache_gets k ts s))) = misses (stats s)"
  using assms
proof (induction ts arbitrary: s)
  case Nil
  show ?case by simp
next
  case (Cons t ts)
  have g: "cache_get k t s = (data e, recordHit s)"
    using Cons.prems by (simp add: cache_get_live)
  have m: "map_of (cache (recordHit s)) k = Some e"
    using Cons.prems by (simp add: recordHit_def)
  have ih: "fst (cache_gets k ts (recordHit s)) = replicate (length ts) (data e)
       \<and> cache (snd (cache_gets k ts (recordHit s))) = cache (recordHit s)
       \<and> hits (stats (snd (cache_gets k ts (recordHit s)))) = hits (stats (recordHit s)) + length ts
       \<and> misses (stats (snd (cache_gets k ts (recordHit s)))) = misses (stats (recordHit s))"
    using Cons.IH [OF m] Cons.prems by simp
  show ?case
    using ih by (simp add: g split_beta recordHit_def)
qed

text \<open>
  Claim C2. After \<open>set(key, v, ttl)\<close> at time \<open>t0\<close>, every \<open>get(key)\<close> made while the clock
  has not passed \<open>t0 + ttl\<close> returns \<open>v\<close> and records a hit, however many such calls are
  made. The first \<open>get(key)\<close> made once the clock has passed \<open>t0 + ttl\<close> returns \<open>null\<close>,
  records a miss and removes the entry, and a \<open>has(key)\<close> after it, at any time, is false.
  (An entry is expired when \<open>now > expiry\<close>: at \<open>t0 + ttl\<close> itself it is still returned.)
\<close>

theorem cache_set_then_get:
  assumes "\<forall>t \<in> set ts. t \<le> t0 + ttl" and "t0 + ttl < t"
  shows "let s1 = cache_set k v ttl t0 s;
             (rs, s2) = cache_gets k ts s1;
             (r, s3) = cache_get k t s2;
             (h, s4) = cache_has k t' s3
         in rs = replicate (length ts) v
          \<and> hits (stats s2) = hits (stats s1) + length ts
          \<and> misses (stats s2) = misses (stats s1)
          \<and> r = None
          \<and> misses (stats s3) = misses (stats s2) + 1
          \<and> hits (stats s3) = hits (stats s2)
          \<and> map_of (cache s3) k = None
          \<and> h = False"
proof -
  define s1 where "s1 = cache_set k v ttl t0 s"
  define e where "e = \<lparr>data = v, expiry = t0 + ttl, createdAt = t0\<rparr>"
  define s2 where "s2 = snd (cache_gets k ts s1)"
  define s3 where "s3 = snd (cache_get k t s2)"
  have m1: "map_of (cache s1) k = Some e"
    by (simp add: s1_def e_def map_of_cache_set)
  have live: "\<forall>t \<in> set ts. t \<le> expiry e"
    using assms(1) by (simp add: e_def)
  have gs: "fst (cache_gets k ts s1) = replicate (length ts) v
       \<and> cache s2 = cache s1
       \<and> hits (stats s2) = hits (stats s1) + length ts
       \<and> misses (stats s2) = misses (stats s1)"
    using cache_gets_live [OF m1 live] by (simp add: s2_def e_def)
  have m2: "map_of (cache s2) k = Some e"
    using gs m1 by simp
  have ex: "expiry e < t"
    using assms(2) by (simp add: e_def)
  have g3: "fst (cache_get k t s2) = None"
    "map_of (cache s3) k = None"
    "misses (stats s3) = misses (stats s2) + 1"
    "hits (stats s3) = hits (stats s2)"
    using cache_get_expired [OF m2 ex] by (simp_all add: s3_def)
  have h4: "fst (cache_has k t' s3) = False"
    using g3(2) by (simp add: cache_has_absent)
  show ?thesis
    using gs g3 h4
    by (simp add: Let_def split_beta s1_def [symmetric] s2_def [symmetric] s3_def [symmetric])
qed

text \<open>The same on a fresh service: three reads within the minute, one after it.\<close>

theorem cache_set_then_get_witness:
  "(1000::int) + 60000 < 61001 \<and>
   (let s1 = cache_set ''user-123'' (Some (7::nat)) 60000 1000 (new_CacheService :: (nat, nat) CacheService);
        (rs, s2) = cache_gets ''user-123'' [1000, 30000, 61000] s1;
        (r, s3) = cache_get ''user-123'' 61001 s2;
        (h, s4) = cache_has ''user-123'' 61002 s3
    in rs = replicate (length [1000, 30000, 61000::int]) (Some 7)
     \<and> hits (stats s2) = hits (stats s1) + length [1000, 30000, 61000::int]
     \<and> misses (stats s2) = misses (stats s1)
     \<and> r = None
     \<and> misses (stats s3) = misses (stats s2) + 1
     \<and> hits (stats s3) = hits (stats s2)
     \<and> map_of (cache s3) ''user-123'' = None
     \<and> h = False)"
proof -
  have h1: "\<forall>t \<in> set [1000, 30000, 61000]. t \<le> (1000::int) + 60000" by simp
  have h2: "(1000::int) + 60000 < 61001" by simp
  show ?thesis
    using h1 h2 cache_set_then_get [OF h1 h2, of "''user-123''" "Some (7::nat)" "new_CacheService :: (nat, nat) CacheService" 61002]
    by blast
qed


subsection \<open>CacheService: wrap, getOrSet and null values\<close>

lemma cache_wrap_pending:
  assumes "map_of (cache s) k = None" and "map_of (observables s) k = Some p"
  shows "cache_wrap k obs ttl now s = (Pending p, recordMiss s)"
  using assms by (simp add: cache_wrap_def cache_get_absent recordMiss_def)

lemma cache_wraps_pending:
  assumes "map_of (cache s) k = None" and "map_of (observables s) k = Some p"
  shows "fst (cache_wraps k ttl calls s) = map (\<lambda>c. Pending p) calls"
  using assms
proof (induction calls arbitrary: s)
  case Nil
  show ?case by simp
next
  case (Cons c calls)
  obtain now obs where c: "c = (now, obs)" by (cases c)
  have w: "cache_wrap k obs ttl now s = (Pending p, recordMiss s)"
    using Cons.prems by (rule cache_wrap_pending)
  have "map_of (cache (recordMiss s)) k = None"
    and "map_of (observables (recordMiss s)) k = Some p"
    using Cons.prems by (simp_all add: recordMiss_def)
  then have "fst (cache_wraps k ttl calls (recordMiss s)) = map (\<lambda>c. Pending p) calls"
    by (rule Cons.IH)
  then show ?case
    by (simp add: c w split_beta)
qed

lemma cache_wrap_first:
  assumes "case map_of (cache s) k of
             None \<Rightarrow> map_of (observables s) k = None
           | Some e \<Rightarrow> isExpired now e"
  shows "fst (cache_wrap k obs ttl now s) = Created obs"
    and "map_of (cache (snd (cache_wrap k obs ttl now s))) k = None"
    and "map_of (observables (snd (cache_wrap k obs ttl now s))) k = Some obs"
proof -
  show "fst (cache_wrap k obs ttl now s) = Created obs"
    using assms
    by (auto simp: cache_wrap_def cache_get_def cache_delete_def recordMiss_def updateSize_def
        delete_conv' update_conv' split: option.splits)
  show "map_of (cache (snd (cache_wrap k obs ttl now s))) k = None"
    using assms
    by (auto simp: cache_wrap_def cache_get_def cache_delete_def recordMiss_def updateSize_def
        delete_conv' update_conv' split: option.splits)
  show "map_of (observables (snd (cache_wrap k obs ttl now s))) k = Some obs"
    using assms
    by (auto simp: cache_wrap_def cache_get_def cache_delete_def recordMiss_def updateSize_def
        delete_conv' update_conv' split: option.splits)
qed

lemma factory_calls_Created_Pending:
  "factory_calls (Created obs # map (\<lambda>c. Pending p) calls) = 1"
  by (induction calls) (simp_all add: factory_calls_def)

lemma answers_no_Created: "filter is_Created (answers p emitted es) = []"
  by (induction p emitted es rule: answers.induct) (simp_all split: option.splits)

lemma cache_wrap_cached:
  assumes "map_of (cache s) k = Some e" and "data e = Some v" and "now \<le> expiry e"
  shows "cache_wrap k obs ttl now s = (Of v, recordHit s)"
  using assms by (simp add: cache_wrap_def cache_get_live)

lemma wrap_trace_answers:
  assumes "case emitted of
             None \<Rightarrow> exp = None \<and> map_of (cache s) k = None \<and> map_of (observables s) k = Some p
           | Some v \<Rightarrow> (\<exists>e x. exp = Some x \<and> map_of (cache s) k = Some e \<and> data e = Some v
                            \<and> expiry e = x)"
    and "before_expiry ttl exp es"
  shows "fst (wrap_trace k ttl es s) = answers p emitted es"
  using assms
proof (induction es arbitrary: s emitted exp)
  case Nil
  show ?case by simp
next
  case (Cons ev es)
  show ?case
  proof (cases ev)
    case (WrapCall now obs)
    show ?thesis
    proof (cases emitted)
      case None
      have c: "map_of (cache s) k = None" and o: "map_of (observables s) k = Some p"
        and x: "exp = None"
        using Cons.prems(1) None by simp_all
      have w: "cache_wrap k obs ttl now s = (Pending p, recordMiss s)"
        using c o by (rule cache_wrap_pending)
      have inv: "case emitted of
             None \<Rightarrow> exp = None \<and> map_of (cache (recordMiss s)) k = None
                      \<and> map_of (observables (recordMiss s)) k = Some p
           | Some v \<Rightarrow> (\<exists>e x. exp = Some x \<and> map_of (cache (recordMiss s)) k = Some e
                            \<and> data e = Some v \<and> expiry e = x)"
        using None c o x by (simp add: recordMiss_def)
      have be: "before_expiry ttl exp es"
        using Cons.prems(2) WrapCall by simp
      have "fst (wrap_trace k ttl es (recordMiss s)) = answers p emitted es"
        using inv be by (rule Cons.IH)
      then show ?thesis
        using WrapCall None w by (simp add: split_beta)
    next
      case (Some v)
      obtain e x where x: "exp = Some x" and c: "map_of (cache s) k = Some e"
        and d: "data e = Some v" and ex: "expiry e = x"
        using Cons.prems(1) Some by auto
      have le: "now \<le> expiry e"
        using Cons.prems(2) WrapCall x ex by simp
      have w: "cache_wrap k obs ttl now s = (Of v, recordHit s)"
        using c d le by (rule cache_wrap_cached)
      have inv: "case emitted of
             None \<Rightarrow> exp = None \<and> map_of (cache (recordHit s)) k = None
                      \<and> map_of (observables (recordHit s)) k = Some p
           | Some v \<Rightarrow> (\<exists>e x. exp = Some x \<and> map_of (cache (recordHit s)) k = Some e
                            \<and> data e = Some v \<and> expiry e = x)"
        using Some x c d ex by (simp add: recordHit_def)
      have be: "before_expiry ttl exp es"
        using Cons.prems(2) WrapCall by simp
      have "fst (wrap_trace k ttl es (recordHit s)) = answers p emitted es"
        using inv be by (rule Cons.IH)
      then show ?thesis
        using WrapCall Some w by (simp add: split_beta)
    qed
  next
    case (Emission now v)
    define s1 where "s1 = wrap_tap k ttl now (NextN (Some v) :: ('a, unit) notification) s"
    have c: "map_of (cache s1) k = Some \<lparr>data = Some v, expiry = now + ttl, createdAt = now\<rparr>"
      by (simp add: s1_def Let_def map_of_cache_set)
    have inv: "case Some v of
             None \<Rightarrow> Some (now + ttl) = None \<and> map_of (cache s1) k = None
                      \<and> map_of (observables s1) k = Some p
           | Some v \<Rightarrow> (\<exists>e x. Some (now + ttl) = Some x \<and> map_of (cache s1) k = Some e
                            \<and> data e = Some v \<and> expiry e = x)"
      using c by simp
    have be: "before_expiry ttl (Some (now + ttl)) es"
      using Cons.prems(2) Emission by simp
    have "fst (wrap_trace k ttl es s1) = answers p (Some v) es"
      using inv be by (rule Cons.IH)
    then show ?thesis
      using Emission by (simp add: s1_def)
  qed
qed

text \<open>
  Claim C3, amended. Let \<open>wrap(key, factory, ttl)\<close> be called when the key has no entry
  in the cache and no pending stream, or an entry that has expired, and let further
  calls for the key follow while the factory's stream has not completed, the stream
  emitting values in between, none of them \<open>null\<close>, and no call being made after the
  entry written by the latest emission has expired. Then the factory is invoked exactly
  once, by the first call: every call made before the first emission is answered with
  that same pending stream, and every call made after an emission is answered with the
  value last emitted, from the cache.
\<close>

theorem wrap_invokes_factory_once:
  assumes "case map_of (cache s) k of
             None \<Rightarrow> map_of (observables s) k = None
           | Some e \<Rightarrow> isExpired now e"
    and "before_expiry ttl None es"
  shows "fst (wrap_trace k ttl (WrapCall now obs # es) s) = Created obs # answers obs None es
       \<and> factory_calls (fst (wrap_trace k ttl (WrapCall now obs # es) s)) = 1"
proof -
  define s1 where "s1 = snd (cache_wrap k obs ttl now s)"
  have r: "fst (cache_wrap k obs ttl now s) = Created obs"
    and c: "map_of (cache s1) k = None"
    and p: "map_of (observables s1) k = Some obs"
    using cache_wrap_first [OF assms(1)] by (simp_all add: s1_def)
  have inv: "case (None :: 'a option) of
             None \<Rightarrow> (None :: int option) = None \<and> map_of (cache s1) k = None
                      \<and> map_of (observables s1) k = Some obs
           | Some v \<Rightarrow> (\<exists>e x. (None :: int option) = Some x \<and> map_of (cache s1) k = Some e
                            \<and> data e = Some v \<and> expiry e = x)"
    using c p by simp
  have rest: "fst (wrap_trace k ttl es s1) = answers obs None es"
    using inv assms(2) by (rule wrap_trace_answers)
  have all: "fst (wrap_trace k ttl (WrapCall now obs # es) s) = Created obs # answers obs None es"
    using r rest by (simp add: split_beta s1_def)
  show ?thesis
    using all by (simp add: factory_calls_def answers_no_Created)
qed

text \<open>
  Two calls, an emission of 42 at time 10, and two more calls, the last at the very
  expiry of the entry.
\<close>

theorem wrap_invokes_factory_once_witness:
  "fst (wrap_trace ''user-1'' 60000
          (WrapCall 0 1 # [WrapCall 5 2, Emission 10 42, WrapCall 20 3, WrapCall 60010 4])
          (new_CacheService :: (nat, nat) CacheService))
     = [Created 1, Pending 1, Of 42, Of 42]
   \<and> factory_calls (fst (wrap_trace ''user-1'' 60000
          (WrapCall 0 1 # [WrapCall 5 2, Emission 10 42, WrapCall 20 3, WrapCall 60010 4])
          (new_CacheService :: (nat, nat) CacheService))) = 1"
proof -
  have h1: "case map_of (cache (new_CacheService :: (nat, nat) CacheService)) ''user-1'' of
             None \<Rightarrow> map_of (observables (new_CacheService :: (nat, nat) CacheService)) ''user-1'' = None
           | Some e \<Rightarrow> isExpired 0 e"
    by (simp add: new_CacheService_def)
  have h2: "before_expiry 60000 None
              [WrapCall 5 2, Emission 10 42, WrapCall 20 3, WrapCall 60010 (4::nat)]"
    by simp
  have a: "answers (1::nat) None
              [WrapCall 5 2, Emission 10 (42::nat), WrapCall 20 3, WrapCall 60010 (4::nat)]
           = [Pending 1, Of 42, Of 42]"
    by simp
  note main = wrap_invokes_factory_once [OF h1 h2, of 1, unfolded a]
  show ?thesis
    by (rule main)
qed

text \<open>
  Claim C3 as stated fails. The key holds \<open>null\<close> with expiry 10. A \<open>wrap\<close> at time 5 reads
  \<open>null\<close>, takes it for a miss and invokes the factory. A second \<open>wrap\<close> at time 11, the
  first stream having neither emitted nor completed, finds the entry expired: \<open>get\<close>
  calls \<open>delete(key)\<close>, which also drops the pending stream, and the factory is invoked
  a second time. Likewise on a fresh service, when the first stream has emitted \<open>null\<close>
  and not completed yet: the emission has dropped the pending stream, the cached \<open>null\<close>
  counts as a miss, and the second \<open>wrap\<close> invokes the factory again.
\<close>

theorem wrap_null_entry_counterexample:
  "fst (cache_wraps ''k'' 60000 [(5, 1), (11, 2)]
         (cache_set ''k'' None 10 0 (new_CacheService :: (nat, nat) CacheService)))
     = [Created 1, Created 2]
   \<and> factory_calls (fst (cache_wraps ''k'' 60000 [(5, 1), (11, 2)]
         (cache_set ''k'' None 10 0 (new_CacheService :: (nat, nat) CacheService)))) = 2
   \<and> (let (r1, s1) = cache_wrap ''k'' (1::nat) 60000 0 (new_CacheService :: (nat, nat) CacheService);
            s2 = wrap_tap ''k'' 60000 1 (NextN None :: (nat, unit) notification) s1;
            (r2, s3) = cache_wrap ''k'' 2 60000 2 s2
        in r1 = Created 1 \<and> r2 = Created 2)"
  by (simp add: cache_wrap_def cache_get_def cache_set_def cache_delete_def new_CacheService_def
      recordMiss_def recordHit_def updateSize_def isExpired_def factory_calls_def)

text \<open>
  Claim C5, the code at the failing input. \<open>wrap('k', factory)\<close> on a fresh service
  invokes the factory and registers the stream; the stream then fails. The cache stays
  without an entry for the key, but the stream is still registered in \<open>observables\<close>, and
  the next \<open>wrap('k', ...)\<close> is answered with the failed stream instead of invoking its
  factory.
\<close>

theorem wrap_error_keeps_pending:
  "(let (r, s1) = cache_wrap ''k'' (1::nat) 60000 0 (new_CacheService :: (nat, nat) CacheService);
        s2 = wrap_tap ''k'' 60000 5 (ErrorN ''503'') s1
    in r = Created 1
     \<and> map_of (cache s2) ''k'' = None
     \<and> map_of (observables s2) ''k'' = Some 1
     \<and> fst (cache_wrap ''k'' 2 60000 6 s2) = Pending 1)"
  by (simp add: cache_wrap_def cache_get_def new_CacheService_def recordMiss_def)

lemma wrap_tap_next:
  "map_of (observables (wrap_tap k ttl now (NextN d) s)) k = None"
  "map_of (cache (wrap_tap k ttl now (NextN d) s)) k
     = Some \<lparr>data = d, expiry = now + ttl, createdAt = now\<rparr>"
  by (simp_all add: cache_set_def updateSize_def delete_conv' update_conv')

text \<open>
  Claim C9, amended. After \<open>set(key, null, ttl)\<close> and while the entry has not expired,
  \<open>get(key)\<close> returns \<open>null\<close>, as it does for an absent key, but records a hit and no miss.
  \<open>getOrSet\<close> on that key invokes its factory. \<open>wrap\<close> on that key does not
  return the cached value: it returns the pending stream when there is one for the key
  and invokes its factory otherwise.
\<close>

theorem null_entry_is_hit:
  assumes "now \<le> t0 + ttl"
  shows "let s1 = cache_set k None ttl t0 s
         in cache_get k now s1 = (None, recordHit s1)
          \<and> misses (stats (snd (cache_get k now s1))) = misses (stats s1)
          \<and> hits (stats (snd (cache_get k now s1))) = hits (stats s1) + 1
          \<and> fst (cache_wrap k obs ttl' now s1)
              = (case map_of (observables s) k of None \<Rightarrow> Created obs | Some p \<Rightarrow> Pending p)
          \<and> fst (cache_getOrSet k produced ttl' now now' s1) = True"
proof -
  define s1 where "s1 = cache_set k None ttl t0 s"
  define e :: "'a CacheEntry" where "e = \<lparr>data = None, expiry = t0 + ttl, createdAt = t0\<rparr>"
  have m: "map_of (cache s1) k = Some e"
    by (simp add: s1_def e_def map_of_cache_set)
  have l: "now \<le> expiry e"
    using assms by (simp add: e_def)
  have g: "cache_get k now s1 = (None, recordHit s1)"
    using cache_get_live [OF m l] by (simp add: e_def)
  have o: "observables (recordHit s1) = observables s"
    by (simp add: recordHit_def s1_def stats_cache_set)
  have w: "fst (cache_wrap k obs ttl' now s1)
              = (case map_of (observables s) k of None \<Rightarrow> Created obs | Some p \<Rightarrow> Pending p)"
    by (simp add: cache_wrap_def g o split: option.splits)
  have f: "fst (cache_getOrSet k produced ttl' now now' s1) = True"
    by (simp add: cache_getOrSet_def g split: sum.splits)
  show ?thesis
    using g w f by (simp add: Let_def s1_def [symmetric] recordHit_def)
qed

text \<open>
  The same at a concrete entry, read at time 5 of its 10.
\<close>

theorem null_entry_is_hit_witness:
  "(let s1 = cache_set ''k'' None 10 0 (new_CacheService :: (nat, nat) CacheService)
    in cache_get ''k'' 5 s1 = (None, recordHit s1)
     \<and> misses (stats (snd (cache_get ''k'' 5 s1))) = misses (stats s1)
     \<and> hits (stats (snd (cache_get ''k'' 5 s1))) = hits (stats s1) + 1
     \<and> fst (cache_wrap ''k'' 1 60000 5 s1)
         = (case map_of (observables (new_CacheService :: (nat, nat) CacheService)) ''k'' of
              None \<Rightarrow> Created 1 | Some p \<Rightarrow> Pending p)
     \<and> fst (cache_getOrSet ''k'' (Inr (Some 3) :: string + nat option) 60000 5 6 s1) = True)"
proof -
  have h: "(5::int) \<le> 0 + 10" by simp
  show ?thesis
    using null_entry_is_hit [OF h, of "''k''" "new_CacheService :: (nat, nat) CacheService" 1 60000
        "Inr (Some 3) :: string + nat option" 6]
    by blast
qed

text \<open>
  Claim C9 as stated fails: the \<open>get\<close> of an unexpired \<open>null\<close> entry does not add one to
  the misses.
\<close>

theorem null_entry_miss_counterexample:
  "misses (stats (snd (cache_get ''k'' 5
      (cache_set ''k'' None 10 0 (new_CacheService :: (nat, nat) CacheService)))))
   \<noteq> misses (stats (cache_set ''k'' None 10 0 (new_CacheService :: (nat, nat) CacheService))) + 1"
  by (simp add: cache_get_def cache_set_def new_CacheService_def recordHit_def updateSize_def
      isExpired_def)


subsection \<open>ApiService: withRetry\<close>

lemma retry_delayMs_exponential:
  "exponentialBackoff rc \<Longrightarrow> retry_delayMs rc n = min (retryDelay rc * 2 ^ n) 30000"
  by (simp add: retry_delayMs_def)

lemma retry_delayMs_flat:
  "\<not> exponentialBackoff rc \<Longrightarrow> retry_delayMs rc n = retryDelay rc"
  by (simp add: retry_delayMs_def)

text \<open>
  Claim C1, the code at the failing input: \<open>maxRetries = 3\<close>, \<open>retryDelay = 1000\<close>,
  exponential backoff, three failures with status 503 and then a success. The stream
  yields the success value, but the delays waited are 2000, 4000 and 8000 ms:
  \<open>scan\<close> hands \<open>switchMap\<close> the count already incremented, so the delay before retry
  \<open>n\<close> is \<open>min(retryDelay * 2^n, 30000)\<close> (lemma \<open>retry_delayMs_exponential\<close>).
\<close>

theorem withRetry_503_delays:
  "withRetry
     [Fails (HttpErrorResponse 503), Fails (HttpErrorResponse 503), Fails (HttpErrorResponse 503),
      Succeeds (''ok'')]
     \<lparr>maxRetries_opt = Some 3, retryDelay_opt = Some 1000, retryStatuses_opt = None,
      exponentialBackoff_opt = Some True\<rparr>
   = ([2000, 4000, 8000], (Yields ''ok'' :: (string, unit) stream_end))"
  by (simp add: withRetry_def merge_RetryConfig_def DEFAULT_RETRY_CONFIG_def retry_scan_def
      retry_delayMs_def)

lemma retry_run_abort:
  assumes "retry_scan rc n e = Inl e'"
  shows "retry_run rc n (Fails e # rest) = ([], Raises e')"
  using assms by simp

lemma retry_scan_exhausted:
  "int n \<ge> maxRetries rc \<Longrightarrow> retry_scan rc n e = Inl e"
  by (simp add: retry_scan_def)

lemma retry_scan_retryable:
  "int n < maxRetries rc \<Longrightarrow> retryable rc e \<Longrightarrow> retry_scan rc n e = Inr (n + 1)"
  by (cases e) (simp_all add: retry_scan_def retryable_def)

lemma retry_run_all_fail:
  assumes "\<forall>e \<in> set errs. retryable rc e"
    and "int n \<le> maxRetries rc"
    and "int (n + length errs) = maxRetries rc"
  shows "retry_run rc n (map Fails errs @ Fails e # rest)
           = (map (retry_delayMs rc) [n + 1 ..< n + length errs + 1], Raises e)"
  using assms
proof (induction errs arbitrary: n)
  case Nil
  then show ?case by (simp add: retry_scan_exhausted)
next
  case (Cons x errs)
  have lt: "int n < maxRetries rc" using Cons.prems by simp
  have sc: "retry_scan rc n x = Inr (n + 1)"
    using lt Cons.prems by (simp add: retry_scan_retryable)
  have ih: "retry_run rc (n + 1) (map Fails errs @ Fails e # rest)
           = (map (retry_delayMs rc) [n + 1 + 1 ..< n + 1 + length errs + 1], Raises e)"
    using Cons.prems by (intro Cons.IH) simp_all
  have up: "[n + 1 ..< n + length (x # errs) + 1] = (n + 1) # [n + 1 + 1 ..< n + 1 + length errs + 1]"
    using upt_conv_Cons [of "n + 1" "n + length (x # errs) + 1"] by simp
  show ?case
    unfolding up using sc ih by simp
qed

text \<open>
  What \<open>withRetry\<close> does with an \<open>HttpErrorResponse\<close>: one whose status is not in
  \<open>retryStatuses\<close> ends the stream at once with that error, without retry or delay; one
  is retried only if its status is in \<open>retryStatuses\<close> and fewer than \<open>maxRetries\<close>
  retries have been made. An error that is not an \<open>HttpErrorResponse\<close> passes the
  accumulator while retries remain. Once \<open>maxRetries\<close> retries have been made the next
  error is raised to the caller; and when \<open>maxRetries\<close> errors that pass are followed by
  one more error, the delays of the retries are waited in turn and that last error is
  raised.
\<close>

theorem withRetry_http_status:
  "(st \<notin> set (retryStatuses rc) \<longrightarrow>
      retry_run rc n (Fails (HttpErrorResponse st) # rest) = ([], Raises (HttpErrorResponse st)))
   \<and> (retry_scan rc n (HttpErrorResponse st) = Inr m \<longrightarrow>
        st \<in> set (retryStatuses rc) \<and> int n < maxRetries rc \<and> m = n + 1)
   \<and> (int n < maxRetries rc \<longrightarrow> retry_scan rc n (OtherError x) = Inr (n + 1))
   \<and> (maxRetries rc \<le> int n \<longrightarrow> retry_run rc n (Fails e # rest) = ([], Raises e))
   \<and> ((\<forall>e \<in> set errs. case e of HttpErrorResponse st \<Rightarrow> st \<in> set (retryStatuses rc)
                                | OtherError _ \<Rightarrow> True)
        \<and> int (length errs) = maxRetries rc \<longrightarrow>
        retry_run rc 0 (map Fails errs @ Fails e # rest)
          = (map (retry_delayMs rc) [1 ..< length errs + 1], Raises e))"
proof (intro conjI impI)
  assume "st \<notin> set (retryStatuses rc)"
  then show "retry_run rc n (Fails (HttpErrorResponse st) # rest) = ([], Raises (HttpErrorResponse st))"
    by (simp add: retry_scan_def)
next
  assume a: "retry_scan rc n (HttpErrorResponse st) = Inr m"
  show "st \<in> set (retryStatuses rc)"
    using a by (simp add: retry_scan_def split: if_splits)
  show "int n < maxRetries rc"
    using a by (simp add: retry_scan_def split: if_splits)
  show "m = n + 1"
    using a by (auto simp: retry_scan_def split: if_splits)
next
  assume "int n < maxRetries rc"
  then show "retry_scan rc n (OtherError x) = Inr (n + 1)"
    by (simp add: retry_scan_def)
next
  assume "maxRetries rc \<le> int n"
  then show "retry_run rc n (Fails e # rest) = ([], Raises e)"
    by (simp add: retry_scan_exhausted)
next
  assume a: "(\<forall>e \<in> set errs. case e of HttpErrorResponse st \<Rightarrow> st \<in> set (retryStatuses rc)
                                | OtherError _ \<Rightarrow> True)
        \<and> int (length errs) = maxRetries rc"
  have r: "\<forall>e \<in> set errs. retryable rc e"
    using a by (simp add: retryable_def)
  show "retry_run rc 0 (map Fails errs @ Fails e # rest)
          = (map (retry_delayMs rc) [1 ..< length errs + 1], Raises e)"
    using retry_run_all_fail [OF r, of 0 e rest] a by simp
qed

text \<open>
  The default configuration: status 400 ends the stream at once, status 503 is retried,
  and a fourth failure after three retries is raised.
\<close>

theorem withRetry_http_status_witness:
  "retry_run DEFAULT_RETRY_CONFIG 0 (Fails (HttpErrorResponse 400) # [])
     = ([], (Raises (HttpErrorResponse 400) :: (unit, unit) stream_end))
   \<and> (503 \<in> set (retryStatuses DEFAULT_RETRY_CONFIG) \<and> int 0 < maxRetries DEFAULT_RETRY_CONFIG
        \<and> (1::nat) = 0 + 1)
   \<and> retry_scan DEFAULT_RETRY_CONFIG 0 (OtherError ()) = Inr (0 + 1)
   \<and> retry_run DEFAULT_RETRY_CONFIG 3 (Fails (HttpErrorResponse 503) # [])
       = ([], (Raises (HttpErrorResponse 503) :: (unit, unit) stream_end))
   \<and> retry_run DEFAULT_RETRY_CONFIG 0
        (map Fails [HttpErrorResponse 503, HttpErrorResponse 503, HttpErrorResponse 503]
         @ Fails (HttpErrorResponse 500) # [])
       = (map (retry_delayMs DEFAULT_RETRY_CONFIG)
            [1 ..< length [HttpErrorResponse 503, HttpErrorResponse 503,
                           HttpErrorResponse 503 :: unit request_error] + 1],
          (Raises (HttpErrorResponse 500) :: (unit, unit) stream_end))"
proof -
  have h1: "400 \<notin> set (retryStatuses DEFAULT_RETRY_CONFIG)"
    by (simp add: DEFAULT_RETRY_CONFIG_def)
  have h2: "retry_scan DEFAULT_RETRY_CONFIG 0 (HttpErrorResponse 503 :: unit request_error) = Inr 1"
    by (simp add: retry_scan_def DEFAULT_RETRY_CONFIG_def)
  have h3: "int 0 < maxRetries DEFAULT_RETRY_CONFIG"
    by (simp add: DEFAULT_RETRY_CONFIG_def)
  have h4: "maxRetries DEFAULT_RETRY_CONFIG \<le> int 3"
    by (simp add: DEFAULT_RETRY_CONFIG_def)
  have h5: "(\<forall>e \<in> set [HttpErrorResponse 503, HttpErrorResponse 503,
                          HttpErrorResponse 503 :: unit request_error].
               case e of HttpErrorResponse st \<Rightarrow> st \<in> set (retryStatuses DEFAULT_RETRY_CONFIG)
                       | OtherError _ \<Rightarrow> True)
            \<and> int (length [HttpErrorResponse 503, HttpErrorResponse 503,
                            HttpErrorResponse 503 :: unit request_error])
                = maxRetries DEFAULT_RETRY_CONFIG"
    by (simp add: DEFAULT_RETRY_CONFIG_def)
  note a = withRetry_http_status [where st = 400 and rc = DEFAULT_RETRY_CONFIG and n = 0
      and rest = "[] :: (unit, unit) outcome list" and m = 1 and x = "()"
      and e = "HttpErrorResponse 503" and errs = "[]"]
  note b = withRetry_http_status [where st = 503 and rc = DEFAULT_RETRY_CONFIG and n = 0
      and rest = "[] :: (unit, unit) outcome list" and m = 1 and x = "()"
      and e = "HttpErrorResponse 500"
      and errs = "[HttpErrorResponse 503, HttpErrorResponse 503, HttpErrorResponse 503]"]
  note c = withRetry_http_status [where st = 503 and rc = DEFAULT_RETRY_CONFIG and n = 3
      and rest = "[] :: (unit, unit) outcome list" and m = 1 and x = "()"
      and e = "HttpErrorResponse 503" and errs = "[]"]
  have c1: "retry_run DEFAULT_RETRY_CONFIG 0 (Fails (HttpErrorResponse 400) # [])
     = ([], (Raises (HttpErrorResponse 400) :: (unit, unit) stream_end))"
    using a h1 by blast
  have c2: "503 \<in> set (retryStatuses DEFAULT_RETRY_CONFIG) \<and> int 0 < maxRetries DEFAULT_RETRY_CONFIG
        \<and> (1::nat) = 0 + 1"
    using b h2 by blast
  have c3: "retry_scan DEFAULT_RETRY_CONFIG 0 (OtherError ()) = Inr (0 + 1)"
    using b h3 by blast
  have c4: "retry_run DEFAULT_RETRY_CONFIG 3 (Fails (HttpErrorResponse 503) # [])
       = ([], (Raises (HttpErrorResponse 503) :: (unit, unit) stream_end))"
    using c h4 by blast
  have c5: "retry_run DEFAULT_RETRY_CONFIG 0
        (map Fails [HttpErrorResponse 503, HttpErrorResponse 503, HttpErrorResponse 503]
         @ Fails (HttpErrorResponse 500) # [])
       = (map (retry_delayMs DEFAULT_RETRY_CONFIG)
            [1 ..< length [HttpErrorResponse 503, HttpErrorResponse 503,
                           HttpErrorResponse 503 :: unit request_error] + 1],
          (Raises (HttpErrorResponse 500) :: (unit, unit) stream_end))"
    using b h5 by blast
  show ?thesis
    using c1 c2 c3 c4 c5 by blast
qed

text \<open>
  Claim C6, the code at the failing input. The error handler of the service's own
  \<open>get\<close> replaces an \<open>HttpErrorResponse\<close> by a plain \<open>ApiErrorResponse\<close> object, for
  which \<open>error instanceof HttpErrorResponse\<close> is false, so the status check is skipped.
  A request that always fails with such an error for status 400, which is not in
  \<open>retryStatuses\<close>, is retried three times under the default configuration, with the
  three delays, before the error reaches the caller.
\<close>

theorem withRetry_retries_other_error:
  "withRetry (replicate 4 (Fails (OtherError ''ApiErrorResponse, code 400''))) no_config
   = ([2000, 4000, 8000],
      (Raises (OtherError ''ApiErrorResponse, code 400'') :: (unit, string) stream_end))"
  by (simp add: withRetry_def merge_RetryConfig_def DEFAULT_RETRY_CONFIG_def retry_scan_def
      retry_delayMs_def no_config_def numeral_eq_Suc)

subsection \<open>ApiService: get and its cache\<close>

lemma api_get_miss:
  assumes "enabled c" and "map_of (api_cache s) (cacheKey_of baseUrl endpoint c) = None"
  shows "api_get baseUrl endpoint (Some c) now s
           = (HttpGet (buildUrl baseUrl endpoint) (Some (cacheKey_of baseUrl endpoint c, ttl_of c)),
              s\<lparr>api_cache := AList.delete (cacheKey_of baseUrl endpoint c) (api_cache s)\<rparr>)"
  using assms
  by (simp add: api_get_def getFromCache_def cacheKey_of_def ttl_of_def Let_def
      split: option.splits)

lemma api_get_hit:
  assumes "enabled c"
    and "map_of (api_cache s) (cacheKey_of baseUrl endpoint c) = Some \<lparr>data_a = d, expiry_a = x\<rparr>"
    and "now < x"
  shows "api_get baseUrl endpoint (Some c) now s = (CachedValue d, s)"
  using assms
  by (simp add: api_get_def getFromCache_def cacheKey_of_def Let_def split: option.splits)

text \<open>
  Claim C4, amended. Caching is enabled and the cache holds no entry under the cache
  key. A first \<open>get\<close> returns a stream, which is subscribed and sends its HTTP request;
  a second \<open>get\<close> with the same key, made while that request is in flight, returns
  another stream, which sends a second HTTP request when it is subscribed. A further
  subscriber of the first stream sends no request: the request in flight is shared
  among the subscribers of one returned stream only. When the response of the first
  request arrives no request is sent either, and the response is in the cache under
  \<open>key ?? url\<close>, expiring \<open>ttl ?? 60000\<close> later; until then \<open>get\<close> returns the cached value
  and sends nothing.
\<close>

theorem api_get_request_per_call:
  assumes "enabled c" and "map_of (api_cache (service_w w)) (cacheKey_of baseUrl endpoint c) = None"
  shows "let n = next_stream w;
             (r1, w1) = world_get baseUrl endpoint (Some c) t1 w;
             w2 = subscribe n t2 w1;
             (r2, w3) = world_get baseUrl endpoint (Some c) t3 w2;
             w4 = subscribe (n + 1) t4 w3;
             w5 = subscribe n t5 w4;
             w6 = respond n d t6 w5
         in r1 = Inr n \<and> r2 = Inr (n + 1)
          \<and> http_sent w2 = http_sent w @ [buildUrl baseUrl endpoint]
          \<and> http_sent w4 = http_sent w @ [buildUrl baseUrl endpoint, buildUrl baseUrl endpoint]
          \<and> http_sent w5 = http_sent w4
          \<and> http_sent w6 = http_sent w4
          \<and> map_of (api_cache (service_w w6)) (cacheKey_of baseUrl endpoint c)
              = Some \<lparr>data_a = d, expiry_a = t6 + ttl_of c\<rparr>
          \<and> (t7 < t6 + ttl_of c \<longrightarrow>
                fst (world_get baseUrl endpoint (Some c) t7 w6) = Inl d
              \<and> http_sent (snd (world_get baseUrl endpoint (Some c) t7 w6)) = http_sent w4)"
proof -
  define K where "K = cacheKey_of baseUrl endpoint c"
  define u where "u = buildUrl baseUrl endpoint"
  define n where "n = next_stream w"
  define st0 :: "'a GetStream" where
    "st0 = \<lparr>url_g = u, store_g = Some (K, ttl_of c), connected_g = False, value_g = None,
            subscribers_g = 0\<rparr>"
  define sv1 where "sv1 = (service_w w)\<lparr>api_cache := AList.delete K (api_cache (service_w w))\<rparr>"
  define w1 where "w1 = w\<lparr>service_w := sv1, streams_w := AList.update n st0 (streams_w w),
                          next_stream := n + 1\<rparr>"
  have g1: "world_get baseUrl endpoint (Some c) t1 w = (Inr n, w1)"
    using api_get_miss [OF assms(1), of "service_w w" baseUrl endpoint t1] assms(2)
    by (simp add: world_get_def K_def u_def n_def st0_def sv1_def w1_def)
  define st1 where "st1 = st0\<lparr>connected_g := True, subscribers_g := 1\<rparr>"
  define w2 where "w2 = w1\<lparr>http_sent := http_sent w @ [u],
                           streams_w := AList.update n st1 (streams_w w1)\<rparr>"
  have s2: "subscribe n t2 w1 = w2"
    by (simp add: subscribe_def w1_def w2_def st0_def st1_def update_conv' Let_def)
  have m2: "map_of (api_cache (service_w w2)) K = None"
    by (simp add: w2_def w1_def sv1_def delete_conv')
  define sv3 where "sv3 = (service_w w2)\<lparr>api_cache := AList.delete K (api_cache (service_w w2))\<rparr>"
  define w3 where "w3 = w2\<lparr>service_w := sv3, streams_w := AList.update (n + 1) st0 (streams_w w2),
                          next_stream := n + 1 + 1\<rparr>"
  have n2: "next_stream w2 = n + 1"
    by (simp add: w2_def w1_def)
  have g3: "world_get baseUrl endpoint (Some c) t3 w2 = (Inr (n + 1), w3)"
    using api_get_miss [OF assms(1), of "service_w w2" baseUrl endpoint t3] m2 n2
    by (simp add: world_get_def K_def u_def st0_def sv3_def w3_def)
  define w4 where "w4 = w3\<lparr>http_sent := http_sent w @ [u, u],
                           streams_w := AList.update (n + 1) st1 (streams_w w3)\<rparr>"
  have s4: "subscribe (n + 1) t4 w3 = w4"
    by (simp add: subscribe_def w3_def w4_def w2_def st0_def st1_def update_conv' Let_def)
  have l4: "map_of (streams_w w4) n = Some st1"
    by (simp add: w4_def w3_def w2_def update_conv')
  define st2 where "st2 = st1\<lparr>subscribers_g := 2\<rparr>"
  define w5 where "w5 = w4\<lparr>streams_w := AList.update n st2 (streams_w w4)\<rparr>"
  have s5: "subscribe n t5 w4 = w5"
    using l4 by (simp add: subscribe_def w5_def st1_def st2_def st0_def Let_def numeral_2_eq_2)
  have l5: "map_of (streams_w w5) n = Some st2"
    by (simp add: w5_def update_conv')
  have m5: "service_w w5 = sv3"
    by (simp add: w5_def w4_def w3_def)
  define sv6 where "sv6 = setCache K d (ttl_of c) t6 (setCache K d (ttl_of c) t6 sv3)"
  define w6 where "w6 = w5\<lparr>streams_w := AList.update n (st2\<lparr>value_g := Some d\<rparr>) (streams_w w5),
                           service_w := sv6\<rparr>"
  have s6: "respond n d t6 w5 = w6"
    using l5 m5
    by (simp add: respond_def w6_def sv6_def st2_def st1_def st0_def api_get_response_def
        numeral_2_eq_2)
  have c6: "map_of (api_cache (service_w w6)) K = Some \<lparr>data_a = d, expiry_a = t6 + ttl_of c\<rparr>"
    by (simp add: w6_def sv6_def setCache_def update_conv')
  have h4: "http_sent w4 = http_sent w @ [u, u]" by (simp add: w4_def)
  have h2: "http_sent w2 = http_sent w @ [u]" by (simp add: w2_def)
  have h5: "http_sent w5 = http_sent w4" by (simp add: w5_def)
  have h6: "http_sent w6 = http_sent w4" by (simp add: w6_def w5_def)
  have g7: "t7 < t6 + ttl_of c \<longrightarrow>
              fst (world_get baseUrl endpoint (Some c) t7 w6) = Inl d
            \<and> http_sent (snd (world_get baseUrl endpoint (Some c) t7 w6)) = http_sent w4"
  proof
    assume lt: "t7 < t6 + ttl_of c"
    have "api_get baseUrl endpoint (Some c) t7 (service_w w6) = (CachedValue d, service_w w6)"
      using api_get_hit [OF assms(1) _ lt, of "service_w w6" baseUrl endpoint d] c6
      by (simp add: K_def)
    then show "fst (world_get baseUrl endpoint (Some c) t7 w6) = Inl d
            \<and> http_sent (snd (world_get baseUrl endpoint (Some c) t7 w6)) = http_sent w4"
      using h6 by (simp add: world_get_def)
  qed
  show ?thesis
    unfolding Let_def n_def [symmetric] g1 split_conv s2 g3 s4 s5 s6
    using h2 h4 h5 h6 c6 g7 by (simp add: K_def u_def)
qed



text \<open>
  Two calls for \<open>/users\<close> on an empty cache, and the response 7 at time 5.
\<close>

theorem api_get_request_per_call_witness:
  "(let c = \<lparr>enabled = True, ttl_opt = None, key_opt = None\<rparr>;
        w = (\<lparr>service_w = \<lparr>api_cache = []\<rparr>, streams_w = [], next_stream = 0, http_sent = []\<rparr>
               :: nat ApiWorld);
        (r1, w1) = world_get ''/api'' ''/users'' (Some c) 0 w;
        w2 = subscribe 0 1 w1;
        (r2, w3) = world_get ''/api'' ''/users'' (Some c) 2 w2;
        w4 = subscribe (0 + 1) 3 w3;
        w5 = subscribe 0 4 w4;
        w6 = respond 0 7 5 w5
    in r1 = Inr 0 \<and> r2 = Inr (0 + 1)
     \<and> http_sent w2 = [''/api/users'']
     \<and> http_sent w4 = [''/api/users'', ''/api/users'']
     \<and> http_sent w5 = http_sent w4
     \<and> http_sent w6 = http_sent w4
     \<and> map_of (api_cache (service_w w6)) ''/api/users'' = Some \<lparr>data_a = 7, expiry_a = 60005\<rparr>
     \<and> fst (world_get ''/api'' ''/users'' (Some c) 10 w6) = Inl 7
     \<and> http_sent (snd (world_get ''/api'' ''/users'' (Some c) 10 w6)) = http_sent w4)"
proof -
  define c where "c = \<lparr>enabled = True, ttl_opt = None, key_opt = None\<rparr>"
  define w :: "nat ApiWorld" where
    "w = \<lparr>service_w = \<lparr>api_cache = []\<rparr>, streams_w = [], next_stream = 0, http_sent = []\<rparr>"
  have h1: "enabled c" by (simp add: c_def)
  have h2: "map_of (api_cache (service_w w)) (cacheKey_of ''/api'' ''/users'' c) = None"
    by (simp add: w_def)
  have k: "cacheKey_of ''/api'' ''/users'' c = ''/api/users''"
    and u: "buildUrl ''/api'' ''/users'' = ''/api/users''"
    and t: "ttl_of c = 60000"
    and n: "next_stream w = 0" and hs: "http_sent w = []"
    by (simp_all add: cacheKey_of_def buildUrl_def ttl_of_def c_def w_def)
  have lt: "(10::int) < 5 + 60000" by simp
  note th = api_get_request_per_call [OF h1 h2, of 0 1 2 3 4 7 5 10,
      unfolded k u t n hs]
  show ?thesis
    unfolding Let_def c_def [symmetric] w_def [symmetric]
    using th lt by (simp add: Let_def split_beta)
qed

text \<open>
  Claim C4 as stated fails: two caching \<open>get\<close> calls for the same URL on an empty
  cache, the second made while the request of the first is in flight, return two
  streams and perform two HTTP requests.
\<close>

theorem api_get_two_requests_counterexample:
  "fst (api_gets ''/api'' ''/users'' (Some \<lparr>enabled = True, ttl_opt = None, key_opt = None\<rparr>)
          [0, 1] (\<lparr>api_cache = []\<rparr> :: nat ApiService))
     = [HttpGet ''/api/users'' (Some (''/api/users'', 60000)),
        HttpGet ''/api/users'' (Some (''/api/users'', 60000))]
   \<and> http_requests (fst (api_gets ''/api'' ''/users''
          (Some \<lparr>enabled = True, ttl_opt = None, key_opt = None\<rparr>)
          [0, 1] (\<lparr>api_cache = []\<rparr> :: nat ApiService))) = 2
   \<and> (let c = \<lparr>enabled = True, ttl_opt = None, key_opt = None\<rparr>;
            w = (\<lparr>service_w = \<lparr>api_cache = []\<rparr>, streams_w = [], next_stream = 0, http_sent = []\<rparr>
                   :: nat ApiWorld);
            (r1, w1) = world_get ''/api'' ''/users'' (Some c) 0 w;
            w2 = subscribe 0 1 w1;
            (r2, w3) = world_get ''/api'' ''/users'' (Some c) 2 w2;
            w4 = subscribe 1 3 w3
        in r1 = Inr 0 \<and> r2 = Inr 1
         \<and> http_sent w2 = [''/api/users'']
         \<and> http_sent w4 = [''/api/users'', ''/api/users''] \<and> length (http_sent w4) = 2)"
  by (simp add: api_get_def getFromCache_def buildUrl_def http_requests_def Let_def
      world_get_def subscribe_def)

subsection \<open>ApiService: createPaginatedStream\<close>

lemma api_get_uncached:
  assumes "\<not> cache_enabled rc"
  shows "api_get baseUrl endpoint rc now api = (HttpGet (buildUrl baseUrl endpoint) None, api)"
proof (cases rc)
  case None
  then show ?thesis by (simp add: api_get_def)
next
  case (Some c)
  then have "\<not> enabled c" using assms by (simp add: cache_enabled_def)
  then show ?thesis using Some by (simp add: api_get_def)
qed

text \<open>
  Claim C8, amended. Take a paginated stream with page size \<open>p\<close> and initial page \<open>i\<close>
  (1 by default) whose request configuration does not enable the response cache, and a
  server that answers pages \<open>i\<close> and \<open>i + 1\<close> with \<open>p\<close> items each and reports a next page
  after page \<open>i\<close>. The stream starts loading page \<open>i\<close> with an empty list. When the
  response arrives, \<open>data$\<close> holds exactly the \<open>p\<close> items of page \<open>i\<close>. \<open>loadMore()\<close> then
  requests page \<open>i + 1\<close> and, when it arrives, \<open>data$\<close> holds the items of page \<open>i\<close>
  followed by those of page \<open>i + 1\<close>, \<open>2p\<close> items. \<open>reset()\<close> empties the list and
  requests page \<open>i\<close> again, after which \<open>data$\<close> holds the \<open>p\<close> items of page \<open>i\<close> only.
\<close>

theorem paginated_stream_pages:
  assumes "\<not> cache_enabled rc"
    and "hasNextPage (server i p)"
    and "length (data_r (server i p)) = nat p"
    and "length (data_r (server (i + 1) p)) = nat p"
  shows "let w0 = (createPaginatedStream baseUrl endpoint (Some p) (Some i) rc t0 api
                    :: ('a, 'e) PaginatedStream \<times> 'a PaginatedResponse ApiService);
             w1 = deliver server t1 w0;
             w2 = deliver server t3 (loadMore baseUrl t2 w1);
             w3 = reset baseUrl t4 w2;
             w4 = deliver server t5 w3
         in data_p (fst w0) = [] \<and> loading (fst w0) \<and> inflight (fst w0) = Some (i, p, None)
          \<and> data_p (fst w1) = data_r (server i p)
          \<and> length (data_p (fst w1)) = nat p
          \<and> inflight (fst (loadMore baseUrl t2 w1)) = Some (i + 1, p, None)
          \<and> data_p (fst w2) = data_r (server i p) @ data_r (server (i + 1) p)
          \<and> length (data_p (fst w2)) = 2 * nat p
          \<and> data_p (fst w3) = [] \<and> page (fst w3) = i \<and> inflight (fst w3) = Some (i, p, None)
          \<and> data_p (fst w4) = data_r (server i p)
          \<and> length (data_p (fst w4)) = nat p"
  using assms
  by (simp add: Let_def deliver_def createPaginatedStream_def page_next_def on_response_def
      loadMore_def reset_def api_get_uncached api_get_response_def)

text \<open>
  Pages of two items, page \<open>n\<close> holding \<open>10 n\<close> and \<open>10 n + 1\<close>: two items, then four, then
  two again after \<open>reset()\<close>.
\<close>

theorem paginated_stream_pages_witness:
  "(let server = (\<lambda>pg ps. \<lparr>data_r = [10 * pg, 10 * pg + 1], hasNextPage = True\<rparr>);
        w0 = (createPaginatedStream ''/api'' ''/users'' (Some 2) (Some 1) None 0 \<lparr>api_cache = []\<rparr>
                :: (int, unit) PaginatedStream \<times> int PaginatedResponse ApiService);
        w1 = deliver server 1 w0;
        w2 = deliver server 3 (loadMore ''/api'' 2 w1);
        w3 = reset ''/api'' 4 w2;
        w4 = deliver server 5 w3
    in data_p (fst w0) = [] \<and> data_p (fst w1) = [10, 11] \<and> length (data_p (fst w1)) = 2
     \<and> data_p (fst w2) = [10, 11, 20, 21] \<and> length (data_p (fst w2)) = 4
     \<and> data_p (fst w3) = [] \<and> data_p (fst w4) = [10, 11])"
proof -
  define server :: "int \<Rightarrow> int \<Rightarrow> int PaginatedResponse" where
    "server = (\<lambda>pg ps. \<lparr>data_r = [10 * pg, 10 * pg + 1], hasNextPage = True\<rparr>)"
  have h0: "\<not> cache_enabled None" by (simp add: cache_enabled_def)
  have h: "hasNextPage (server 1 2)" by (simp add: server_def)
  have l1: "length (data_r (server 1 2)) = nat 2" and l2: "length (data_r (server (1 + 1) 2)) = nat 2"
    by (simp_all add: server_def)
  have d: "data_r (server 1 2) = [10, 11]" "data_r (server (1 + 1) 2) = [20, 21]"
    by (simp_all add: server_def)
  show ?thesis
    using paginated_stream_pages [where server = server and i = 1 and p = 2 and ?'e = unit
        and rc = None and baseUrl = "''/api''" and endpoint = "''/users''" and ?t0.0 = 0
        and api = "\<lparr>api_cache = []\<rparr>" and ?t1.0 = 1 and ?t2.0 = 2 and ?t3.0 = 3 and ?t4.0 = 4
        and ?t5.0 = 5, OF h0 h l1 l2] d
    unfolding server_def [symmetric] Let_def by simp
qed

text \<open>
  Claim C8 as stated fails, with page size 2. When the response for page 1 reports
  no next page, \<open>loadMore()\<close> requests nothing and \<open>data$\<close> keeps the two items of page 1.
  When the request configuration enables the response cache, the request for page 2 is
  answered from the cache entry that page 1 left under the URL, which does not contain
  the page, and \<open>data$\<close> holds page 1 twice. When the server answers page 1 with one
  item, \<open>data$\<close> holds that one item.
\<close>

theorem paginated_stream_counterexample:
  "(let server = (\<lambda>pg ps. \<lparr>data_r = [10 * pg, 10 * pg + 1], hasNextPage = False\<rparr>);
        w0 = (createPaginatedStream ''/api'' ''/users'' (Some 2) (Some 1) None 0 \<lparr>api_cache = []\<rparr>
                :: (int, unit) PaginatedStream \<times> int PaginatedResponse ApiService);
        w1 = deliver server 1 w0;
        w2 = deliver server 3 (loadMore ''/api'' 2 w1)
    in data_p (fst w2) = [10, 11] \<and> length (data_p (fst w2)) \<noteq> 2 * 2)
   \<and> (let server = (\<lambda>pg ps. \<lparr>data_r = [10 * pg, 10 * pg + 1], hasNextPage = True\<rparr>);
        w0 = (createPaginatedStream ''/api'' ''/users'' (Some 2) (Some 1)
                (Some \<lparr>enabled = True, ttl_opt = None, key_opt = None\<rparr>) 0 \<lparr>api_cache = []\<rparr>
                :: (int, unit) PaginatedStream \<times> int PaginatedResponse ApiService);
        w1 = deliver server 1 w0;
        w2 = deliver server 3 (loadMore ''/api'' 2 w1)
    in data_p (fst w1) = [10, 11] \<and> page (fst w2) = 2
     \<and> data_p (fst w2) = [10, 11, 10, 11] \<and> data_p (fst w2) \<noteq> [10, 11, 20, 21])
   \<and> (let server = (\<lambda>pg ps. \<lparr>data_r = [10 * pg], hasNextPage = True\<rparr>);
        w0 = (createPaginatedStream ''/api'' ''/users'' (Some 2) (Some 1) None 0 \<lparr>api_cache = []\<rparr>
                :: (int, unit) PaginatedStream \<times> int PaginatedResponse ApiService);
        w1 = deliver server 1 w0
    in data_p (fst w1) = [10] \<and> length (data_p (fst w1)) \<noteq> 2)"
  by (simp add: Let_def deliver_def createPaginatedStream_def page_next_def on_response_def
      loadMore_def api_get_def getFromCache_def setCache_def api_get_response_def buildUrl_def)

subsection \<open>WebSocketService: reconnection\<close>


lemma attemptReconnect_below:
  assumes "config s = Some c" and "reconnectAttempts_cfg c = Some k" and "reconnectAttempts s < k"
  shows "attemptReconnect s
           = s\<lparr>state := Reconnecting, reconnectAttempts := reconnectAttempts s + 1,
                reconnect_timers := reconnect_timers s + 1\<rparr>"
  using assms by (simp add: attemptReconnect_def)

lemma attemptReconnect_limit:
  assumes "config s = Some c" and "reconnectAttempts_cfg c = Some k" and "k \<le> reconnectAttempts s"
  shows "attemptReconnect s = s\<lparr>error_s := Some MaxReconnectionAttempts\<rparr>"
  using assms by (simp add: attemptReconnect_def)










subsection \<open>WebSocketService: request\<close>

lemma messages_not_matching:
  assumes "\<forall>m \<in> set msgs. \<not> (type_m m = req_responseType sub \<and> id_m m = Some (req_id sub))"
  shows "foldl (\<lambda>sb m. request_on_message m sb) sub msgs = sub"
  using assms
proof (induction msgs)
  case Nil
  show ?case by simp
next
  case (Cons a msgs)
  have "request_on_message a sub = sub"
    using Cons.prems by (simp add: request_on_message_def)
  then show ?case
    using Cons by simp
qed

text \<open>
  Claim C10, amended. When the stream returned by
  \<open>request(type, payload, responseType, timeout)\<close> is subscribed while the connection
  state is not \<open>connected\<close>, nothing is transmitted and one warning is logged; the
  subscriber is not failed at once. As long as no message of the response type with
  the request's id arrives, the subscriber keeps waiting at every time before \<open>timeout\<close>
  has passed since the subscription, and it is failed with the timeout error of the
  request type once \<open>timeout\<close> has passed.
\<close>

theorem request_subscribed_not_connected:
  assumes "state s \<noteq> Connected"
    and "\<forall>m \<in> set msgs. \<not> (type_m m = responseType \<and> id_m m = Some ident)"
  shows "let (sub, s') = request_subscribe (request ty pl responseType timeout ident) now s;
             sub' = foldl (\<lambda>sb m. request_on_message m sb) sub msgs
         in sent s' = sent s \<and> warnings s' = warnings s + 1
          \<and> outcome sub = Waiting
          \<and> (t < now + timeout \<longrightarrow> outcome (request_tick t sub') = Waiting)
          \<and> (now + timeout \<le> t \<longrightarrow> outcome (request_tick t sub') = Failed (RequestTimeout ty))"
proof -
  define sub :: "'b RequestSubscriber" where
    "sub = \<lparr>req_type = ty, req_responseType = responseType, req_id = ident,
            due = now + timeout, outcome = Waiting\<rparr>"
  have nm: "\<forall>m \<in> set msgs. \<not> (type_m m = req_responseType sub \<and> id_m m = Some (req_id sub))"
    using assms(2) by (simp add: sub_def)
  have f: "foldl (\<lambda>sb m. request_on_message m sb) sub msgs = sub"
    using nm by (rule messages_not_matching)
  have snd: "send \<lparr>type_m = ty, payload = pl, timestamp = None, id_m = Some ident\<rparr> ident now s
               = s\<lparr>warnings := warnings s + 1\<rparr>"
    using assms(1) by (simp add: send_def)
  show ?thesis
    by (simp add: request_subscribe_def request_def Let_def sub_def [symmetric] f snd)
       (simp add: sub_def request_tick_def)
qed

text \<open>
  A request with a timeout of 100 subscribed on a service that was never connected.
\<close>

theorem request_subscribed_not_connected_witness:
  "(let (sub, s') = request_subscribe (request ''getUser'' (1::nat) ''user'' 100 ''id-1'') 0
                      (new_WebSocketService :: nat WebSocketService);
        sub' = foldl (\<lambda>sb m. request_on_message m sb) (sub :: nat RequestSubscriber)
                 [\<lparr>type_m = ''user'', payload = 5, timestamp = None, id_m = Some ''id-2''\<rparr>]
    in sent s' = sent (new_WebSocketService :: nat WebSocketService)
     \<and> warnings s' = warnings (new_WebSocketService :: nat WebSocketService) + 1
     \<and> outcome sub = Waiting
     \<and> outcome (request_tick 99 sub') = Waiting
     \<and> outcome (request_tick 100 sub') = Failed (RequestTimeout ''getUser''))"
proof -
  have h1: "state (new_WebSocketService :: nat WebSocketService) \<noteq> Connected"
    by (simp add: new_WebSocketService_def)
  have h2: "\<forall>m \<in> set [\<lparr>type_m = ''user'', payload = 5::nat, timestamp = None, id_m = Some ''id-2''\<rparr>].
              \<not> (type_m m = ''user'' \<and> id_m m = Some ''id-1'')"
    by simp
  have a: "(99::int) < 0 + 100" and b: "(0::int) + 100 \<le> 100" by simp_all
  show ?thesis
    using request_subscribed_not_connected [OF h1 h2, of "''getUser''" 1 100 0 99]
      request_subscribed_not_connected [OF h1 h2, of "''getUser''" 1 100 0 100] a b
    by (simp add: split_beta Let_def)
qed

text \<open>
  Claim C10 as stated fails. A \<open>request\<close> called while the service is disconnected and
  subscribed at time 50, after the connection has opened, transmits its message without
  any warning: the state at the subscription decides, not the state at the call. And a
  subscriber on a disconnected service that is reached by a message of the response
  type with its id is given that payload, and no timeout error when the timeout has
  passed.
\<close>

theorem request_cold_stream_counterexample:
  "(let s0 = (new_WebSocketService :: nat WebSocketService);
        rq = request ''getUser'' (1::nat) ''user'' 100 ''id-1'';
        s1 = on_open (connect \<lparr>url = ''wss://api.example.com/ws'', reconnect = None,
                               reconnectInterval = None, reconnectAttempts_cfg = None,
                               heartbeatInterval = None\<rparr> s0);
        (sub, s2) = (request_subscribe rq 50 s1 :: nat RequestSubscriber \<times> nat WebSocketService)
    in state s0 = Disconnected
     \<and> sent s2 = [\<lparr>type_m = ''getUser'', payload = 1, timestamp = Some 50, id_m = Some ''id-1''\<rparr>]
     \<and> warnings s2 = 0)
   \<and> (let (sub, s') = (request_subscribe (request ''getUser'' (1::nat) ''user'' 100 ''id-1'') 0
                         (new_WebSocketService :: nat WebSocketService)
                       :: nat RequestSubscriber \<times> nat WebSocketService);
            sub' = request_on_message
                     \<lparr>type_m = ''user'', payload = 7, timestamp = None, id_m = Some ''id-1''\<rparr> sub
        in sent s' = [] \<and> outcome (request_tick 100 sub') = Received 7)"
  by (simp add: request_def request_subscribe_def send_def on_open_def connect_def
      createConnection_def with_defaults_def startHeartbeat_def stopHeartbeat_def
      new_WebSocketService_def request_on_message_def request_tick_def Let_def)

end
